theory Spec2Isabelle
  imports Complex_Main
begin

section \<open>Configuration (CACHE_CONFIG)\<close>

text \<open>Times and durations are milliseconds, as \<^verbatim>\<open>Date.now()\<close> returns them.\<close>

definition CURRENT_PRICE_TTL :: int where
  "CURRENT_PRICE_TTL = 5 * 60 * 1000"

definition HISTORICAL_DATA_TTL :: int where
  "HISTORICAL_DATA_TTL = 30 * 60 * 1000"

definition DATE_SPECIFIC_TTL :: int where
  "DATE_SPECIFIC_TTL = 24 * 60 * 60 * 1000"

definition MAX_CACHE_SIZE :: nat where
  "MAX_CACHE_SIZE = 1000"

section \<open>The insertion-ordered Map of JavaScript\<close>

text \<open>
  A JavaScript \<^verbatim>\<open>Map\<close> iterates in insertion order and holds each key once. It is
  modelled as an association list, oldest key first. \<^verbatim>\<open>Map.set\<close> on a key that is
  present replaces the value where it stands; on a new key it appends. \<^verbatim>\<open>Map.delete\<close>
  removes the key. \<^verbatim>\<open>keys().next().value\<close> is the first key, or undefined (\<open>None\<close>)
  on an empty map.
\<close>

fun Map_get :: "'k \<Rightarrow> ('k \<times> 'v) list \<Rightarrow> 'v option" where
  "Map_get k [] = None"
| "Map_get k ((k', v) # rest) = (if k' = k then Some v else Map_get k rest)"

fun Map_set :: "'k \<Rightarrow> 'v \<Rightarrow> ('k \<times> 'v) list \<Rightarrow> ('k \<times> 'v) list" where
  "Map_set k v [] = [(k, v)]"
| "Map_set k v ((k', v') # rest) =
     (if k' = k then (k, v) # rest else (k', v') # Map_set k v rest)"

fun Map_delete :: "'k \<Rightarrow> ('k \<times> 'v) list \<Rightarrow> ('k \<times> 'v) list" where
  "Map_delete k [] = []"
| "Map_delete k ((k', v) # rest) =
     (if k' = k then Map_delete k rest else (k', v) # Map_delete k rest)"

fun Map_keys_next :: "('k \<times> 'v) list \<Rightarrow> 'k option" where
  "Map_keys_next [] = None"
| "Map_keys_next ((k, v) # rest) = Some k"

definition Map_ok :: "('k \<times> 'v) list \<Rightarrow> bool" where
  "Map_ok m = distinct (map fst m)"

section \<open>MemoryCache\<close>

record 'a CacheEntry =
  data :: 'a
  timestamp :: int
  ttl :: int
  key :: string

text \<open>
  The class has two fields; the interval timer takes no part in any operation below and
  is left out. Each operation takes the reading of \<^verbatim>\<open>Date.now()\<close> it makes as its first
  argument and returns the cache it leaves behind.
\<close>

record 'a MemoryCache =
  cache :: "(string \<times> 'a CacheEntry) list"

definition new_cache :: "'a MemoryCache" where
  "new_cache = \<lparr>cache = []\<rparr>"

text \<open>
  \<^verbatim>\<open>if (oldestKey) this.cache.delete(oldestKey)\<close> tests the key for truthiness: undefined
  and the empty string are both falsy.
\<close>

definition set_cache :: "int \<Rightarrow> string \<Rightarrow> 'a \<Rightarrow> int \<Rightarrow> 'a MemoryCache \<Rightarrow> 'a MemoryCache" where
  "set_cache now k d t c =
     (let c1 = (if MAX_CACHE_SIZE \<le> length (cache c)
                then (case Map_keys_next (cache c) of
                        None \<Rightarrow> c
                      | Some oldestKey \<Rightarrow>
                          if oldestKey \<noteq> [] then c\<lparr>cache := Map_delete oldestKey (cache c)\<rparr>
                          else c)
                else c)
      in c1\<lparr>cache := Map_set k \<lparr>data = d, timestamp = now, ttl = t, key = k\<rparr> (cache c1)\<rparr>)"

definition get :: "int \<Rightarrow> string \<Rightarrow> 'a MemoryCache \<Rightarrow> 'a option \<times> 'a MemoryCache" where
  "get now k c =
     (case Map_get k (cache c) of
        None \<Rightarrow> (None, c)
      | Some entry \<Rightarrow>
          if now - timestamp entry > ttl entry
          then (None, c\<lparr>cache := Map_delete k (cache c)\<rparr>)
          else (Some (data entry), c))"

definition has :: "int \<Rightarrow> string \<Rightarrow> 'a MemoryCache \<Rightarrow> bool \<times> 'a MemoryCache" where
  "has now k c =
     (case Map_get k (cache c) of
        None \<Rightarrow> (False, c)
      | Some entry \<Rightarrow>
          if now - timestamp entry > ttl entry
          then (False, c\<lparr>cache := Map_delete k (cache c)\<rparr>)
          else (True, c))"

definition delete :: "string \<Rightarrow> 'a MemoryCache \<Rightarrow> 'a MemoryCache" where
  "delete k c = c\<lparr>cache := Map_delete k (cache c)\<rparr>"

definition clear :: "'a MemoryCache \<Rightarrow> 'a MemoryCache" where
  "clear c = c\<lparr>cache := []\<rparr>"

text \<open>
  \<^verbatim>\<open>cleanup\<close> reads the clock once, collects the keys of the expired entries in
  iteration order, then deletes them one by one.
\<close>

definition expired :: "int \<Rightarrow> 'a CacheEntry \<Rightarrow> bool" where
  "expired now entry = (now - timestamp entry > ttl entry)"

fun keysToDelete :: "int \<Rightarrow> (string \<times> 'a CacheEntry) list \<Rightarrow> string list" where
  "keysToDelete now [] = []"
| "keysToDelete now ((k, entry) # rest) =
     (if now - timestamp entry > ttl entry then k # keysToDelete now rest
      else keysToDelete now rest)"

fun forEach_delete :: "string list \<Rightarrow> (string \<times> 'a CacheEntry) list \<Rightarrow> (string \<times> 'a CacheEntry) list" where
  "forEach_delete [] m = m"
| "forEach_delete (k # ks) m = forEach_delete ks (Map_delete k m)"

definition cleanup :: "int \<Rightarrow> 'a MemoryCache \<Rightarrow> 'a MemoryCache" where
  "cleanup now c = c\<lparr>cache := forEach_delete (keysToDelete now (cache c)) (cache c)\<rparr>"

text \<open>
  \<^verbatim>\<open>getStats\<close> reads the clock twice for every entry, once for \<^verbatim>\<open>age\<close> and once for
  \<^verbatim>\<open>expired\<close>. The readings are given as a function of their number: entry \<open>i\<close>
  (counted from 0) uses readings \<open>2 * i\<close> and \<open>2 * i + 1\<close>. The method has no statement
  that writes to the map; the model returns the cache next to the snapshot, as the other
  operations do.
\<close>

record EntryStats =
  stat_key :: string
  stat_age :: int
  stat_ttl :: int
  stat_expired :: bool

record Stats =
  stat_size :: nat
  stat_maxSize :: nat
  stat_entries :: "EntryStats list"

fun stats_entries :: "(nat \<Rightarrow> int) \<Rightarrow> nat \<Rightarrow> (string \<times> 'a CacheEntry) list \<Rightarrow> EntryStats list" where
  "stats_entries clock i [] = []"
| "stats_entries clock i ((k, entry) # rest) =
     \<lparr>stat_key = k,
      stat_age = clock (2 * i) - timestamp entry,
      stat_ttl = ttl entry,
      stat_expired = (clock (2 * i + 1) - timestamp entry > ttl entry)\<rparr>
     # stats_entries clock (Suc i) rest"

definition getStats :: "(nat \<Rightarrow> int) \<Rightarrow> 'a MemoryCache \<Rightarrow> Stats \<times> 'a MemoryCache" where
  "getStats clock c =
     (\<lparr>stat_size = length (cache c),
       stat_maxSize = MAX_CACHE_SIZE,
       stat_entries = stats_entries clock 0 (cache c)\<rparr>, c)"

text \<open>
  A run of the public operations on one cache, each with the clock reading it makes
  (\<open>delete\<close> and \<open>clear\<close> read no clock).
\<close>

datatype 'a cache_op =
  Set int string 'a int
| Get int string
| Has int string
| Delete string
| Clear

fun apply_op :: "'a cache_op \<Rightarrow> 'a MemoryCache \<Rightarrow> 'a MemoryCache" where
  "apply_op (Set now k d t) c = set_cache now k d t c"
| "apply_op (Get now k) c = snd (get now k c)"
| "apply_op (Has now k) c = snd (has now k c)"
| "apply_op (Delete k) c = delete k c"
| "apply_op Clear c = clear c"

fun run_ops :: "'a cache_op list \<Rightarrow> 'a MemoryCache \<Rightarrow> 'a MemoryCache" where
  "run_ops [] c = c"
| "run_ops (x # xs) c = run_ops xs (apply_op x c)"

fun set_keys :: "'a cache_op list \<Rightarrow> string list" where
  "set_keys [] = []"
| "set_keys (Set now k d t # xs) = k # set_keys xs"
| "set_keys (x # xs) = set_keys xs"

text \<open>
  Example inputs: a cache of two entries, and the run that calls \<open>set\<close> with the keys
  \<open>k\<close>, \<open>kk\<close>, \<open>kkk\<close>, ... in this order (\<open>key_of n\<close> is \<open>n\<close> letters long).
\<close>

definition two_entries :: "nat MemoryCache" where
  "two_entries = \<lparr>cache = [(''a'', \<lparr>data = 1, timestamp = 0, ttl = 1000, key = ''a''\<rparr>),
                           (''b'', \<lparr>data = 2, timestamp = 500, ttl = 1000, key = ''b''\<rparr>)]\<rparr>"

definition key_of :: "nat \<Rightarrow> string" where
  "key_of n = replicate n CHR ''k''"

fun fill_ops :: "nat \<Rightarrow> nat cache_op list" where
  "fill_ops 0 = []"
| "fill_ops (Suc n) = fill_ops n @ [Set 0 (key_of (Suc n)) 0 0]"

text \<open>What the run \<open>fill_ops n\<close> leaves in an empty cache, for \<open>n\<close> up to the capacity.\<close>

definition filled :: "nat \<Rightarrow> (string \<times> nat CacheEntry) list" where
  "filled n = map (\<lambda>i. (key_of i, \<lparr>data = 0, timestamp = 0, ttl = 0, key = key_of i\<rparr>)) [1..<Suc n]"

section \<open>JavaScript values\<close>

text \<open>
  What the upstream service answers and what the cache holds are JavaScript values
  (\<^verbatim>\<open>any\<close> in the source). An object is the list of its own properties, each name once.
  Only the zero-ness of a number is ever tested, so numbers are rationals.
\<close>

datatype jsval =
  JUndefined
| JNull
| JBool bool
| JNum rat
| JStr string
| JArr "jsval list"
| JObj "(string \<times> jsval) list"

fun truthy :: "jsval \<Rightarrow> bool" where
  "truthy JUndefined = False"
| "truthy JNull = False"
| "truthy (JBool b) = b"
| "truthy (JNum n) = (n \<noteq> 0)"
| "truthy (JStr s) = (s \<noteq> [])"
| "truthy (JArr xs) = True"
| "truthy (JObj ps) = True"

fun isArray :: "jsval \<Rightarrow> bool" where
  "isArray (JArr xs) = True"
| "isArray v = False"

text \<open>
  \<^verbatim>\<open>x.historical\<close> (and \<^verbatim>\<open>x?.historical\<close>, which is undefined on null and undefined): only
  an object can have the property.
\<close>

fun prop_historical :: "jsval \<Rightarrow> jsval" where
  "prop_historical (JObj ps) = (case Map_get ''historical'' ps of Some v \<Rightarrow> v | None \<Rightarrow> JUndefined)"
| "prop_historical v = JUndefined"

text \<open>\<^verbatim>\<open>x.length === 0\<close>, for a truthy \<open>x\<close>.\<close>

fun length_is_0 :: "jsval \<Rightarrow> bool" where
  "length_is_0 (JArr xs) = (xs = [])"
| "length_is_0 (JStr s) = (s = [])"
| "length_is_0 (JObj ps) = (Map_get ''length'' ps = Some (JNum 0))"
| "length_is_0 v = False"

text \<open>\<^verbatim>\<open>xs[0]\<close> on an array: undefined when the array is empty.\<close>

fun first_elem :: "jsval list \<Rightarrow> jsval" where
  "first_elem [] = JUndefined"
| "first_elem (x # xs) = x"

section \<open>The upstream service\<close>

text \<open>
  A request either fulfils with a response body or rejects. The quote endpoint is typed
  \<^verbatim>\<open>FMPQuote[]\<close> in the source, so its body is an array; the historical endpoint's body is
  inspected as \<^verbatim>\<open>any\<close>. The fetch operations return, next to their result, the requests
  they issued, in order.
\<close>

datatype 'a settled = Fulfilled 'a | Rejected

datatype request =
  QuoteReq string
| HistoricalReq string string string

record upstream =
  quote :: "string \<Rightarrow> jsval list settled"
  historical_price_full :: "string \<Rightarrow> string \<Rightarrow> string \<Rightarrow> jsval settled"

datatype error =
  NoGoldData
| NoHistoricalData
| NoDateData string
| RequestFailed

section \<open>Fetch operations\<close>

text \<open>\<^verbatim>\<open>if (cachedData)\<close>: a hit needs a truthy value.\<close>

fun hit :: "jsval option \<Rightarrow> jsval option" where
  "hit None = None"
| "hit (Some d) = (if truthy d then Some d else None)"

text \<open>\<^verbatim>\<open>r.status === 'fulfilled' && r.value.data[0]\<close>, and \<^verbatim>\<open>r.value.data[0]\<close>.\<close>

fun fulfilled_data0 :: "jsval list settled \<Rightarrow> bool" where
  "fulfilled_data0 Rejected = False"
| "fulfilled_data0 (Fulfilled body) = truthy (first_elem body)"

fun value_data0 :: "jsval list settled \<Rightarrow> jsval" where
  "value_data0 Rejected = JUndefined"
| "value_data0 (Fulfilled body) = first_elem body"

text \<open>
  \<open>t_get\<close> is the clock reading of \<open>cache.get\<close>, \<open>t_set\<close> the one of \<open>cache.set\<close> after the
  requests have settled.
\<close>

definition fetchCurrentGoldPrice ::
  "int \<Rightarrow> int \<Rightarrow> upstream \<Rightarrow> jsval MemoryCache \<Rightarrow> (error + jsval) \<times> request list \<times> jsval MemoryCache" where
  "fetchCurrentGoldPrice t_get t_set api c =
     (let cacheKey = ''current_gold_price'';
          (cachedData, c1) = get t_get cacheKey c
      in case hit cachedData of
           Some d \<Rightarrow> (Inr d, [], c1)
         | None \<Rightarrow>
             (let gldResponse = quote api ''GLD'';
                  goldResponse = quote api ''GCUSD'';
                  requests = [QuoteReq ''GLD'', QuoteReq ''GCUSD''];
                  goldData = (if fulfilled_data0 goldResponse then value_data0 goldResponse
                              else if fulfilled_data0 gldResponse then value_data0 gldResponse
                              else JNull)
              in if \<not> truthy goldData then (Inl NoGoldData, requests, c1)
                 else (Inr goldData, requests,
                       set_cache t_set cacheKey goldData CURRENT_PRICE_TTL c1)))"

text \<open>
  The block that follows each historical request, starting from
  \<^verbatim>\<open>historicalData = []\<close>.
\<close>

definition normalizeHistorical :: "jsval \<Rightarrow> jsval" where
  "normalizeHistorical body =
     (if truthy body \<and> isArray body then body
      else if truthy body \<and> truthy (prop_historical body) then prop_historical body
      else JArr [])"

definition store_historical ::
  "int \<Rightarrow> string \<Rightarrow> request list \<Rightarrow> jsval \<Rightarrow> jsval MemoryCache \<Rightarrow>
   (error + jsval) \<times> request list \<times> jsval MemoryCache" where
  "store_historical t_set cacheKey requests historicalData c1 =
     (if \<not> truthy historicalData \<or> length_is_0 historicalData
      then (Inl NoHistoricalData, requests, c1)
      else (Inr historicalData, requests,
            set_cache t_set cacheKey historicalData HISTORICAL_DATA_TTL c1))"

text \<open>
  \<open>getDateRange\<close> computes the window from the current date with the \<^verbatim>\<open>Date\<close> class; it is
  taken as a parameter. A rejected primary request is caught and the secondary one issued;
  a rejected secondary request propagates.
\<close>

definition fetchHistoricalData ::
  "int \<Rightarrow> int \<Rightarrow> (string \<Rightarrow> string \<times> string) \<Rightarrow> upstream \<Rightarrow> string \<Rightarrow> jsval MemoryCache \<Rightarrow>
   (error + jsval) \<times> request list \<times> jsval MemoryCache" where
  "fetchHistoricalData t_get t_set getDateRange api timeframe c =
     (let cacheKey = ''historical_'' @ timeframe;
          (cachedData, c1) = get t_get cacheKey c
      in case hit cachedData of
           Some d \<Rightarrow> (Inr d, [], c1)
         | None \<Rightarrow>
             (let (start, stop) = getDateRange timeframe;
                  primary = HistoricalReq ''GCUSD'' start stop;
                  secondary = HistoricalReq ''GLD'' start stop
              in case historical_price_full api ''GCUSD'' start stop of
                   Fulfilled body \<Rightarrow>
                     store_historical t_set cacheKey [primary] (normalizeHistorical body) c1
                 | Rejected \<Rightarrow>
                     (case historical_price_full api ''GLD'' start stop of
                        Fulfilled body \<Rightarrow>
                          store_historical t_set cacheKey [primary, secondary] (normalizeHistorical body) c1
                      | Rejected \<Rightarrow> (Inl RequestFailed, [primary, secondary], c1))))"

definition fetchDateSpecificData ::
  "int \<Rightarrow> int \<Rightarrow> upstream \<Rightarrow> string \<Rightarrow> jsval MemoryCache \<Rightarrow>
   (error + jsval) \<times> request list \<times> jsval MemoryCache" where
  "fetchDateSpecificData t_get t_set api date c =
     (let cacheKey = ''date_'' @ date;
          (cachedData, c1) = get t_get cacheKey c
      in case hit cachedData of
           Some d \<Rightarrow> (Inr d, [], c1)
         | None \<Rightarrow>
             (let requests = [HistoricalReq ''GCUSD'' date date]
              in case historical_price_full api ''GCUSD'' date date of
                   Rejected \<Rightarrow> (Inl RequestFailed, requests, c1)
                 | Fulfilled body \<Rightarrow>
                     (let historicalData = (if truthy (prop_historical body)
                                            then prop_historical body else body);
                          dateData = (case historicalData of
                                        JArr xs \<Rightarrow> first_elem xs
                                      | _ \<Rightarrow> JNull)
                      in if \<not> truthy dateData then (Inl (NoDateData date), requests, c1)
                         else (Inr dateData, requests,
                               set_cache t_set cacheKey dateData DATE_SPECIFIC_TTL c1))))"

section \<open>The current-price route\<close>

text \<open>
  The handler of \<^verbatim>\<open>GET /api/gold/current\<close> from the call of \<open>fetchCurrentGoldPrice\<close> on
  (the unit has been validated before). The converted prices are floating-point
  arithmetic on the fields of \<open>goldData\<close> and are not modelled; the response keeps the
  quote and the \<open>cached\<close> flag, which the handler computes with \<open>cache.has\<close> at the clock
  reading \<open>t_has\<close> after the fetch has returned. Any error of the fetch gives status 500.
\<close>

datatype response =
  Ok200 jsval bool
| Error500 error

definition current_handler ::
  "int \<Rightarrow> int \<Rightarrow> int \<Rightarrow> upstream \<Rightarrow> jsval MemoryCache \<Rightarrow> response \<times> request list \<times> jsval MemoryCache" where
  "current_handler t_get t_set t_has api c =
     (case fetchCurrentGoldPrice t_get t_set api c of
        (Inl e, requests, c1) \<Rightarrow> (Error500 e, requests, c1)
      | (Inr goldData, requests, c1) \<Rightarrow>
          (let (cached, c2) = has t_has ''current_gold_price'' c1
           in (Ok200 goldData cached, requests, c2)))"

section \<open>States of the server's cache\<close>

text \<open>
  The module holds one cache, created empty. It is touched by the three fetch
  operations, by \<open>has\<close> in the route handlers, by the sweep of the timer and by \<open>clear\<close>;
  \<open>set\<close> is called by the fetch operations only.
\<close>

inductive reachable :: "jsval MemoryCache \<Rightarrow> bool" where
  reach_new: "reachable new_cache"
| reach_current: "reachable c \<Longrightarrow> reachable (snd (snd (fetchCurrentGoldPrice t_get t_set api c)))"
| reach_historical:
    "reachable c \<Longrightarrow> reachable (snd (snd (fetchHistoricalData t_get t_set getDateRange api timeframe c)))"
| reach_date: "reachable c \<Longrightarrow> reachable (snd (snd (fetchDateSpecificData t_get t_set api date c)))"
| reach_has: "reachable c \<Longrightarrow> reachable (snd (has now k c))"
| reach_cleanup: "reachable c \<Longrightarrow> reachable (cleanup now c)"
| reach_clear: "reachable c \<Longrightarrow> reachable (clear c)"

definition all_truthy :: "jsval MemoryCache \<Rightarrow> bool" where
  "all_truthy c = list_all (\<lambda>p. truthy (data (snd p))) (cache c)"


text \<open>Example upstream services and a quote record.\<close>

definition quote_record :: jsval where
  "quote_record = JObj [(''symbol'', JStr ''GCUSD''), (''price'', JNum 2000)]"

definition day_record :: jsval where
  "day_record = JObj [(''date'', JStr ''2024-01-02''), (''close'', JNum 2000)]"

definition gold_only :: upstream where
  "gold_only = \<lparr>quote = (\<lambda>symbol. if symbol = ''GCUSD'' then Fulfilled [quote_record] else Rejected),
               historical_price_full = (\<lambda>symbol start stop.
                 if symbol = ''GCUSD'' then Fulfilled (JObj [(''historical'', JArr [day_record])])
                 else Rejected)\<rparr>"

definition gld_only :: upstream where
  "gld_only = \<lparr>quote = (\<lambda>symbol. if symbol = ''GLD'' then Fulfilled [quote_record] else Fulfilled []),
              historical_price_full = (\<lambda>symbol start stop.
                 if symbol = ''GLD'' then Fulfilled (JArr [day_record]) else Rejected)\<rparr>"

definition no_data :: upstream where
  "no_data = \<lparr>quote = (\<lambda>symbol. if symbol = ''GLD'' then Fulfilled [] else Rejected),
             historical_price_full = (\<lambda>symbol start stop. Fulfilled (JArr []))\<rparr>"

definition one_month :: "string \<Rightarrow> string \<times> string" where
  "one_month timeframe = (''2024-01-01'', ''2024-02-01'')"

section \<open>Facts about the Map operations\<close>

lemma Map_get_delete: "Map_get k' (Map_delete k m) = (if k' = k then None else Map_get k' m)"
  by (induction m) auto

lemma Map_get_set: "Map_get k' (Map_set k v m) = (if k' = k then Some v else Map_get k' m)"
  by (induction m) auto

lemma Map_get_None_iff: "Map_get k m = None \<longleftrightarrow> k \<notin> fst ` set m"
  by (induction m) (auto split: if_splits)

lemma Map_get_SomeD: "Map_get k m = Some v \<Longrightarrow> (k, v) \<in> set m"
  by (induction m) (auto split: if_splits)

lemma Map_keys_set: "map fst (Map_set k v m) = (if k \<in> set (map fst m) then map fst m else map fst m @ [k])"
  by (induction m) (auto split: if_splits)

lemma Map_keys_delete: "map fst (Map_delete k m) = removeAll k (map fst m)"
  by (induction m) auto

lemma Map_delete_filter: "Map_delete k m = filter (\<lambda>p. fst p \<noteq> k) m"
  by (induction m) auto

lemma Map_ok_set: "Map_ok m \<Longrightarrow> Map_ok (Map_set k v m)"
  by (simp add: Map_ok_def Map_keys_set)

lemma Map_ok_delete: "Map_ok m \<Longrightarrow> Map_ok (Map_delete k m)"
  by (simp add: Map_ok_def Map_keys_delete distinct_removeAll)

lemma length_Map_set: "length (Map_set k v m) = (if k \<in> set (map fst m) then length m else Suc (length m))"
  by (induction m) (auto split: if_splits)

lemma length_Map_delete_le: "length (Map_delete k m) \<le> length m"
  by (induction m) auto

lemma Map_delete_absent: "k \<notin> set (map fst m) \<Longrightarrow> Map_delete k m = m"
  by (induction m) auto

lemma length_Map_delete_present:
  "Map_ok m \<Longrightarrow> k \<in> set (map fst m) \<Longrightarrow> Suc (length (Map_delete k m)) = length m"
  by (induction m) (force simp: Map_ok_def Map_delete_absent)+

lemma forEach_delete_filter:
  "forEach_delete ks m = filter (\<lambda>p. fst p \<notin> set ks) m"
  by (induction ks arbitrary: m) (auto simp: Map_delete_filter intro: filter_cong)

lemma set_keysToDelete: "set (keysToDelete now m) = {k. \<exists>e. (k, e) \<in> set m \<and> expired now e}"
  by (induction m) (auto simp: expired_def split: if_splits)

lemma Map_ok_unique: "Map_ok m \<Longrightarrow> (k, e) \<in> set m \<Longrightarrow> (k, e') \<in> set m \<Longrightarrow> e = e'"
  by (induction m) (auto simp: Map_ok_def rev_image_eqI)

lemma cleanup_filter:
  assumes "Map_ok (cache c)"
  shows "cache (cleanup now c) = filter (\<lambda>p. \<not> expired now (snd p)) (cache c)"
proof -
  have "\<And>p. p \<in> set (cache c) \<Longrightarrow> (fst p \<notin> set (keysToDelete now (cache c))) = (\<not> expired now (snd p))"
    using Map_ok_unique[OF assms] by (fastforce simp: set_keysToDelete)
  then show ?thesis
    by (simp add: cleanup_def forEach_delete_filter cong: filter_cong)
qed

lemma Map_get_iff: "Map_ok m \<Longrightarrow> Map_get k m = Some e \<longleftrightarrow> (k, e) \<in> set m"
  by (induction m) (force simp: Map_ok_def split: if_splits)+

lemma Map_get_filter_absent: "Map_get k m = None \<Longrightarrow> Map_get k (filter P m) = None"
  by (induction m) (auto split: if_splits)

lemma Map_get_filter:
  "Map_ok m \<Longrightarrow> Map_get k (filter P m) =
     (case Map_get k m of None \<Rightarrow> None | Some e \<Rightarrow> if P (k, e) then Some e else None)"
proof (induction m)
  case Nil
  then show ?case by simp
next
  case (Cons p m)
  obtain k' v where p: "p = (k', v)" by (cases p)
  from Cons.prems have ok: "Map_ok m" and fresh: "Map_get k' m = None"
    by (simp_all add: Map_ok_def p Map_get_None_iff)
  show ?case
  proof (cases "k' = k")
    case True
    with fresh have "Map_get k (filter P m) = None"
      by (simp add: Map_get_filter_absent)
    with True show ?thesis by (simp add: p)
  next
    case False
    with Cons.IH [OF ok] show ?thesis by (simp add: p)
  qed
qed

lemma Map_get_cleanup:
  assumes "Map_ok (cache c)"
  shows "Map_get k (cache (cleanup now c)) =
     (case Map_get k (cache c) of None \<Rightarrow> None
      | Some e \<Rightarrow> if now - timestamp e > ttl e then None else Some e)"
  using assms by (simp add: cleanup_filter Map_get_filter expired_def split: option.splits)

section \<open>Lazy expiry on read\<close>

text \<open>
  C1. For every key and every cache: when the entry stored under the key has
  \<open>now - timestamp > ttl\<close>, \<open>get\<close> returns nothing and leaves a cache from which the key
  is gone (and in which every other key reads as before); when the entry has
  \<open>now - timestamp \<le> ttl\<close>, \<open>get\<close> returns the stored value and leaves the cache as it was.
\<close>

theorem get_lazy_expiry:
  assumes "Map_get k (cache c) = Some entry"
  shows "(now - timestamp entry > ttl entry \<longrightarrow>
            fst (get now k c) = None \<and>
            Map_get k (cache (snd (get now k c))) = None \<and>
            (\<forall>k'. k' \<noteq> k \<longrightarrow> Map_get k' (cache (snd (get now k c))) = Map_get k' (cache c))) \<and>
         (now - timestamp entry \<le> ttl entry \<longrightarrow> get now k c = (Some (data entry), c))"
  using assms by (simp add: get_def Map_get_delete)

text \<open>
  Witness for C1: in the cache of two entries, \<open>a\<close> (stored at 0 with ttl 1000) is gone at
  time 1001 and is returned at time 1000.
\<close>

theorem get_lazy_expiry_witness:
  "Map_get ''a'' (cache two_entries) = Some \<lparr>data = 1, timestamp = 0, ttl = 1000, key = ''a''\<rparr> \<and>
   get 1001 ''a'' two_entries =
     (None, \<lparr>cache = [(''b'', \<lparr>data = 2, timestamp = 500, ttl = 1000, key = ''b''\<rparr>)]\<rparr>) \<and>
   get 1000 ''a'' two_entries = (Some 1, two_entries)"
proof -
  have a: "Map_get ''a'' (cache two_entries) = Some \<lparr>data = 1, timestamp = 0, ttl = 1000, key = ''a''\<rparr>"
    by (simp add: two_entries_def)
  from get_lazy_expiry [OF a, of 1001] get_lazy_expiry [OF a, of 1000] a
  show ?thesis
    by (simp add: two_entries_def get_def)
qed

section \<open>The maintenance sweep\<close>

text \<open>
  C7. One run of \<open>cleanup\<close> at clock reading \<open>now\<close>: every entry with
  \<open>now - timestamp > ttl\<close> at the start is gone afterwards, every entry with
  \<open>now - timestamp \<le> ttl\<close> at the start is still stored unchanged, and no key appears.
\<close>

theorem cleanup_sweep:
  assumes "Map_ok (cache c)"
  shows "(\<forall>k e. Map_get k (cache c) = Some e \<and> now - timestamp e > ttl e \<longrightarrow>
            Map_get k (cache (cleanup now c)) = None) \<and>
         (\<forall>k e. Map_get k (cache c) = Some e \<and> now - timestamp e \<le> ttl e \<longrightarrow>
            Map_get k (cache (cleanup now c)) = Some e) \<and>
         (\<forall>k. Map_get k (cache c) = None \<longrightarrow> Map_get k (cache (cleanup now c)) = None)"
  by (simp add: Map_get_cleanup[OF assms])

text \<open>
  Witness for C7: the sweep at time 1001 removes \<open>a\<close> and keeps \<open>b\<close>.
\<close>

theorem cleanup_sweep_witness:
  "Map_ok (cache two_entries) \<and>
   Map_get ''a'' (cache two_entries) = Some \<lparr>data = 1, timestamp = 0, ttl = 1000, key = ''a''\<rparr> \<and>
   Map_get ''a'' (cache (cleanup 1001 two_entries)) = None \<and>
   Map_get ''b'' (cache (cleanup 1001 two_entries)) = Some \<lparr>data = 2, timestamp = 500, ttl = 1000, key = ''b''\<rparr>"
proof -
  have ok: "Map_ok (cache two_entries)"
    by (simp add: two_entries_def Map_ok_def)
  have a: "Map_get ''a'' (cache two_entries) = Some \<lparr>data = 1, timestamp = 0, ttl = 1000, key = ''a''\<rparr>"
    by (simp add: two_entries_def)
  have b: "Map_get ''b'' (cache two_entries) = Some \<lparr>data = 2, timestamp = 500, ttl = 1000, key = ''b''\<rparr>"
    by (simp add: two_entries_def)
  from cleanup_sweep [OF ok, of 1001] a b ok show ?thesis
    by simp
qed

section \<open>The statistics snapshot\<close>

lemma stats_entries_keys: "map stat_key (stats_entries clock i m) = map fst m"
  by (induction m arbitrary: i) auto

lemma stats_entries_nth:
  "j < length m \<Longrightarrow> stats_entries clock i m ! j =
     \<lparr>stat_key = fst (m ! j),
      stat_age = clock (2 * (i + j)) - timestamp (snd (m ! j)),
      stat_ttl = ttl (snd (m ! j)),
      stat_expired = (clock (2 * (i + j) + 1) - timestamp (snd (m ! j)) > ttl (snd (m ! j)))\<rparr>"
proof (induction m arbitrary: i j)
  case Nil
  then show ?case by simp
next
  case (Cons p m)
  obtain k e where p: "p = (k, e)" by (cases p)
  show ?case
  proof (cases j)
    case 0
    then show ?thesis by (simp add: p)
  next
    case (Suc j')
    with Cons.prems have "j' < length m" by simp
    from Cons.IH [OF this, of "Suc i"] show ?thesis
      by (simp add: p Suc)
  qed
qed

text \<open>
  C9. \<open>getStats\<close> leaves the cache as it was, for every cache and all clock readings.
  The snapshot reports the number of entries, the configured maximum, and for each entry, in
  insertion order, its key, its age, its ttl and whether it is expired; an entry reported
  as expired is still stored after the call.
\<close>

theorem getStats_frame:
  "snd (getStats clock c) = c \<and>
   stat_size (fst (getStats clock c)) = length (cache c) \<and>
   stat_maxSize (fst (getStats clock c)) = MAX_CACHE_SIZE \<and>
   map stat_key (stat_entries (fst (getStats clock c))) = map fst (cache c) \<and>
   (\<forall>i < length (cache c).
      stat_entries (fst (getStats clock c)) ! i =
        \<lparr>stat_key = fst (cache c ! i),
         stat_age = clock (2 * i) - timestamp (snd (cache c ! i)),
         stat_ttl = ttl (snd (cache c ! i)),
         stat_expired = (clock (2 * i + 1) - timestamp (snd (cache c ! i)) > ttl (snd (cache c ! i)))\<rparr>) \<and>
   (\<forall>s \<in> set (stat_entries (fst (getStats clock c))).
      stat_expired s \<longrightarrow> Map_get (stat_key s) (cache (snd (getStats clock c))) \<noteq> None)"
proof -
  have "stat_key s \<in> set (map fst (cache c))" if "s \<in> set (stats_entries clock 0 (cache c))" for s
    using that stats_entries_keys [of clock 0 "cache c"] by (metis image_eqI set_map)
  then show ?thesis
    by (simp add: getStats_def stats_entries_keys stats_entries_nth Map_get_None_iff)
qed

text \<open>
  Witness for C9: at time 1001 entry \<open>a\<close> is reported as expired and stays in the cache.
\<close>

theorem getStats_frame_witness:
  "snd (getStats (\<lambda>i. 1001) two_entries) = two_entries \<and>
   stat_entries (fst (getStats (\<lambda>i. 1001) two_entries)) ! 0 =
     \<lparr>stat_key = ''a'', stat_age = 1001, stat_ttl = 1000, stat_expired = True\<rparr> \<and>
   Map_get ''a'' (cache (snd (getStats (\<lambda>i. 1001) two_entries))) \<noteq> None"
  using getStats_frame [of "\<lambda>i. 1001" two_entries]
  by (simp add: two_entries_def)

section \<open>\<open>has\<close> deletes expired entries\<close>

text \<open>
  C10. \<open>has\<close> writes to the cache: for a key whose entry has \<open>now - timestamp > ttl\<close>
  it returns false and deletes the entry, leaving the cache that \<open>get\<close> leaves; the
  number of entries drops by one and \<open>getStats\<close> no longer lists the key. For an absent
  key and for an entry with \<open>now - timestamp \<le> ttl\<close> the cache is unchanged.
\<close>

theorem has_lazy_delete:
  assumes "Map_ok (cache c)"
  shows "(\<forall>e. Map_get k (cache c) = Some e \<and> now - timestamp e > ttl e \<longrightarrow>
            fst (has now k c) = False \<and>
            snd (has now k c) = snd (get now k c) \<and>
            Map_get k (cache (snd (has now k c))) = None \<and>
            Suc (length (cache (snd (has now k c)))) = length (cache c) \<and>
            Suc (stat_size (fst (getStats clock (snd (has now k c))))) = stat_size (fst (getStats clock c)) \<and>
            k \<notin> set (map stat_key (stat_entries (fst (getStats clock (snd (has now k c))))))) \<and>
         (Map_get k (cache c) = None \<longrightarrow> has now k c = (False, c)) \<and>
         (\<forall>e. Map_get k (cache c) = Some e \<and> now - timestamp e \<le> ttl e \<longrightarrow>
            has now k c = (True, c))"
proof -
  have "Suc (length (Map_delete k (cache c))) = length (cache c)" if "Map_get k (cache c) = Some e" for e
  proof -
    from that have "k \<in> set (map fst (cache c))"
      using Map_get_None_iff [of k "cache c"] by simp
    with assms show ?thesis by (rule length_Map_delete_present)
  qed
  then show ?thesis
    by (auto simp: has_def get_def getStats_def stats_entries_keys Map_keys_delete Map_get_delete)
qed

text \<open>
  Witness for C10: \<open>has\<close> at time 1001 on the expired key \<open>a\<close>, the live key \<open>b\<close> and the
  absent key \<open>c\<close>.
\<close>

theorem has_lazy_delete_witness:
  "Map_ok (cache two_entries) \<and>
   has 1001 ''a'' two_entries =
     (False, \<lparr>cache = [(''b'', \<lparr>data = 2, timestamp = 500, ttl = 1000, key = ''b''\<rparr>)]\<rparr>) \<and>
   Suc (length (cache (snd (has 1001 ''a'' two_entries)))) = length (cache two_entries) \<and>
   has 1001 ''b'' two_entries = (True, two_entries) \<and>
   has 1001 ''c'' two_entries = (False, two_entries)"
proof -
  have ok: "Map_ok (cache two_entries)"
    by (simp add: two_entries_def Map_ok_def)
  from has_lazy_delete [OF ok, of "''a''" 1001] has_lazy_delete [OF ok, of "''b''" 1001]
    has_lazy_delete [OF ok, of "''c''" 1001] ok
  show ?thesis
    by (simp add: two_entries_def has_def get_def)
qed

section \<open>Eviction by \<open>set\<close>\<close>

lemma set_cache_below:
  "length (cache c) < MAX_CACHE_SIZE \<Longrightarrow>
   cache (set_cache now k d t c) = Map_set k \<lparr>data = d, timestamp = now, ttl = t, key = k\<rparr> (cache c)"
  by (simp add: set_cache_def)

lemma set_cache_full:
  "MAX_CACHE_SIZE \<le> length (cache c) \<Longrightarrow> Map_keys_next (cache c) = Some k0 \<Longrightarrow> k0 \<noteq> [] \<Longrightarrow>
   cache (set_cache now k d t c) =
     Map_set k \<lparr>data = d, timestamp = now, ttl = t, key = k\<rparr> (Map_delete k0 (cache c))"
  by (simp add: set_cache_def)

lemma set_cache_oldest_empty_key:
  "Map_keys_next (cache c) = Some [] \<Longrightarrow>
   cache (set_cache now k d t c) = Map_set k \<lparr>data = d, timestamp = now, ttl = t, key = k\<rparr> (cache c)"
  by (simp add: set_cache_def)

lemma run_ops_append: "run_ops (xs @ ys) c = run_ops ys (run_ops xs c)"
  by (induction xs arbitrary: c) auto

lemma Map_set_fresh: "k \<notin> set (map fst m) \<Longrightarrow> Map_set k v m = m @ [(k, v)]"
  by (induction m) auto

lemma key_of_inj: "key_of i = key_of j \<longleftrightarrow> i = j"
  unfolding key_of_def by (metis length_replicate)

lemma key_of_Nil: "key_of n = [] \<longleftrightarrow> n = 0"
  by (simp add: key_of_def)

lemma filled_Suc:
  "filled (Suc n) = filled n @ [(key_of (Suc n), \<lparr>data = 0, timestamp = 0, ttl = 0, key = key_of (Suc n)\<rparr>)]"
  by (simp add: filled_def)

lemma keys_filled: "set (map fst (filled n)) = key_of ` {1..n}"
  by (auto simp: filled_def)

lemma key_fresh_filled: "key_of (Suc n) \<notin> set (map fst (filled n))"
  unfolding keys_filled by (auto simp: key_of_inj)

lemma length_filled: "length (filled n) = n"
  by (simp add: filled_def)

lemma cache_fill_ops:
  "n \<le> MAX_CACHE_SIZE \<Longrightarrow> cache (run_ops (fill_ops n) new_cache) = filled n"
proof (induction n)
  case 0
  then show ?case by (simp add: new_cache_def filled_def)
next
  case (Suc n)
  then have IH: "cache (run_ops (fill_ops n) new_cache) = filled n" and lt: "n < MAX_CACHE_SIZE"
    by simp_all
  from lt have "length (cache (run_ops (fill_ops n) new_cache)) < MAX_CACHE_SIZE"
    by (simp add: IH length_filled)
  then show ?case
    using key_fresh_filled [of n]
    by (simp add: run_ops_append set_cache_below IH Map_set_fresh filled_Suc)
qed

lemma oldest_filled: "Map_keys_next (filled (Suc n)) = Some (key_of 1)"
  unfolding filled_def by (subst upt_rec) simp

lemma key_of_Nil2: "[] = key_of n \<longleftrightarrow> n = 0"
  by (auto simp: key_of_def)

text \<open>
  C3 as stated fails. After the 1000 calls \<open>set(k), set(kk), ...\<close> the cache is at capacity
  and holds both \<open>k\<close> and \<open>kk\<close>; the call \<open>set(kk, ...)\<close> on the key that is present
  removes the entry of \<open>k\<close>.
\<close>

theorem set_cache_present_key_evicts:
  "length (cache (run_ops (fill_ops 1000) new_cache)) = MAX_CACHE_SIZE \<and>
   Map_get (key_of 1) (cache (run_ops (fill_ops 1000) new_cache)) \<noteq> None \<and>
   Map_get (key_of 2) (cache (run_ops (fill_ops 1000) new_cache)) \<noteq> None \<and>
   key_of 1 \<noteq> key_of 2 \<and>
   Map_get (key_of 1) (cache (set_cache 0 (key_of 2) 7 0 (run_ops (fill_ops 1000) new_cache))) = None"
proof -
  let ?c = "run_ops (fill_ops 1000) new_cache"
  have c: "cache ?c = filled 1000"
    by (rule cache_fill_ops) (simp add: MAX_CACHE_SIZE_def)
  have len: "length (cache ?c) = MAX_CACHE_SIZE"
    by (simp add: c length_filled MAX_CACHE_SIZE_def)
  have "key_of 1 \<in> set (map fst (filled 1000))" "key_of 2 \<in> set (map fst (filled 1000))"
    unfolding keys_filled by simp_all
  then have present: "Map_get (key_of 1) (cache ?c) \<noteq> None" "Map_get (key_of 2) (cache ?c) \<noteq> None"
    by (simp_all add: c Map_get_None_iff)
  have oldest: "Map_keys_next (cache ?c) = Some (key_of 1)"
    using oldest_filled [of 999] by (simp add: c)
  have ne: "key_of 1 \<noteq> []" "key_of 1 \<noteq> key_of 2"
    by (simp_all add: key_of_Nil key_of_inj)
  have "Map_get (key_of 1) (cache (set_cache 0 (key_of 2) 7 0 ?c)) = None"
    using len oldest ne by (simp add: set_cache_full Map_get_set Map_get_delete)
  with len present ne show ?thesis by simp
qed

text \<open>
  C3 as amended. \<open>set\<close> removes an entry only when the cache holds at least
  \<open>MAX_CACHE_SIZE\<close> entries, and then, whether or not the key is present, it removes
  exactly the entry of the first key in insertion order (taken here to be a non-empty
  string) before it stores the key. With fewer entries nothing is removed: a key that is
  present is overwritten in place, a new key is appended. Every other entry reads as
  before, and the key reads as the new entry.
\<close>

theorem set_cache_eviction:
  "(length (cache c) < MAX_CACHE_SIZE \<longrightarrow>
      cache (set_cache now k d t c) =
        Map_set k \<lparr>data = d, timestamp = now, ttl = t, key = k\<rparr> (cache c) \<and>
      (\<forall>k'. k' \<noteq> k \<longrightarrow> Map_get k' (cache (set_cache now k d t c)) = Map_get k' (cache c))) \<and>
   (MAX_CACHE_SIZE \<le> length (cache c) \<and> Map_keys_next (cache c) = Some k0 \<and> k0 \<noteq> [] \<longrightarrow>
      cache (set_cache now k d t c) =
        Map_set k \<lparr>data = d, timestamp = now, ttl = t, key = k\<rparr> (Map_delete k0 (cache c)) \<and>
      (\<forall>k'. k' \<noteq> k \<longrightarrow> Map_get k' (cache (set_cache now k d t c)) =
                           (if k' = k0 then None else Map_get k' (cache c)))) \<and>
   Map_get k (cache (set_cache now k d t c)) = Some \<lparr>data = d, timestamp = now, ttl = t, key = k\<rparr>"
proof -
  have last: "Map_get k (cache (set_cache now k d t c)) = Some \<lparr>data = d, timestamp = now, ttl = t, key = k\<rparr>"
    by (simp add: set_cache_def Let_def Map_get_set split: option.splits)
  show ?thesis
    using last by (auto simp: set_cache_below set_cache_full Map_get_set Map_get_delete)
qed

text \<open>
  Witness for C3 as amended: a new key on the full cache evicts \<open>k\<close> and keeps \<open>kkk\<close>; a
  key on the empty cache evicts nothing.
\<close>

theorem set_cache_eviction_witness:
  "MAX_CACHE_SIZE \<le> length (cache (run_ops (fill_ops 1000) new_cache)) \<and>
   Map_keys_next (cache (run_ops (fill_ops 1000) new_cache)) = Some (key_of 1) \<and>
   key_of 1 \<noteq> [] \<and>
   Map_get (key_of 1) (cache (set_cache 5 (key_of 1001) 7 9 (run_ops (fill_ops 1000) new_cache))) = None \<and>
   Map_get (key_of 3) (cache (set_cache 5 (key_of 1001) 7 9 (run_ops (fill_ops 1000) new_cache)))
     = Map_get (key_of 3) (cache (run_ops (fill_ops 1000) new_cache)) \<and>
   Map_get (key_of 1001) (cache (set_cache 5 (key_of 1001) 7 9 (run_ops (fill_ops 1000) new_cache)))
     = Some \<lparr>data = 7, timestamp = 5, ttl = 9, key = key_of 1001\<rparr> \<and>
   length (cache new_cache) < MAX_CACHE_SIZE \<and>
   cache (set_cache 5 ''a'' (7::nat) 9 new_cache) =
     [(''a'', \<lparr>data = 7, timestamp = 5, ttl = 9, key = ''a''\<rparr>)]"
proof -
  let ?c = "run_ops (fill_ops 1000) new_cache"
  have c: "cache ?c = filled 1000"
    by (rule cache_fill_ops) (simp add: MAX_CACHE_SIZE_def)
  have len: "MAX_CACHE_SIZE \<le> length (cache ?c)"
    by (simp add: c length_filled MAX_CACHE_SIZE_def)
  have oldest: "Map_keys_next (cache ?c) = Some (key_of 1)"
    using oldest_filled [of 999] by (simp add: c)
  have ne: "key_of 1 \<noteq> []" "key_of 1 \<noteq> key_of 1001" "key_of 3 \<noteq> key_of 1001" "key_of 3 \<noteq> key_of 1"
    by (simp_all add: key_of_Nil key_of_inj)
  have small: "length (cache (new_cache :: nat MemoryCache)) < MAX_CACHE_SIZE"
    by (simp add: new_cache_def MAX_CACHE_SIZE_def)
  from set_cache_eviction [of ?c 5 "key_of 1001" 7 9 "key_of 1"]
    set_cache_eviction [of "new_cache :: nat MemoryCache" 5 "''a''" 7 9 "key_of 1"]
    len oldest ne small
  show ?thesis
    by (simp add: new_cache_def Map_get_set Map_get_delete)
qed

section \<open>The size bound\<close>

lemma cache_fill_ops_after_empty_key:
  "cache (run_ops (fill_ops n) (set_cache 0 [] 0 0 new_cache)) =
     ([], \<lparr>data = 0, timestamp = 0, ttl = 0, key = []\<rparr>) # filled n"
proof (induction n)
  case 0
  then show ?case by (simp add: new_cache_def filled_def set_cache_def MAX_CACHE_SIZE_def)
next
  case (Suc n)
  let ?c = "run_ops (fill_ops n) (set_cache 0 [] 0 0 new_cache)"
  from Suc have oldest: "Map_keys_next (cache ?c) = Some []"
    by simp
  show ?case
    using key_fresh_filled [of n]
    by (simp add: run_ops_append set_cache_oldest_empty_key [OF oldest] Suc Map_set_fresh filled_Suc key_of_Nil2)
qed

text \<open>
  The eviction in \<open>set\<close> relies on the keys being non-empty: after \<open>set('')\<close> the run
  of the 1000 calls \<open>set(k), set(kk), ...\<close> would leave 1001 entries, because the
  truthiness test before the eviction takes an empty oldest key for a missing one. The
  server never stores under the empty key: its keys are \<open>current_gold_price\<close>,
  \<open>historical_...\<close> and \<open>date_...\<close>.
\<close>

lemma size_exceeds_max_with_empty_key:
  "length (cache (run_ops (Set 0 [] 0 0 # fill_ops 1000) new_cache)) = 1001 \<and> MAX_CACHE_SIZE = 1000"
  by (simp add: cache_fill_ops_after_empty_key length_filled MAX_CACHE_SIZE_def)

text \<open>
  With non-empty keys the bound holds for every run of operations, and in every state of
  the server's cache.
\<close>

lemma set_cache_keys:
  "set (map fst (cache (set_cache now k d t c))) \<subseteq> insert k (set (map fst (cache c)))"
  by (auto simp: set_cache_def Let_def Map_keys_set Map_delete_filter split: option.splits if_splits)

lemma set_cache_length:
  assumes "length (cache c) \<le> MAX_CACHE_SIZE" and "[] \<notin> set (map fst (cache c))"
  shows "length (cache (set_cache now k d t c)) \<le> MAX_CACHE_SIZE"
proof (cases "length (cache c) < MAX_CACHE_SIZE")
  case True
  then show ?thesis by (simp add: set_cache_below length_Map_set)
next
  case False
  with assms have full: "length (cache c) = MAX_CACHE_SIZE" by simp
  then obtain k0 e0 rest where c: "cache c = (k0, e0) # rest"
    by (cases "cache c") (auto simp: MAX_CACHE_SIZE_def)
  with assms have k0: "k0 \<noteq> []" by auto
  have "length (Map_delete k0 (cache c)) \<le> length rest"
    by (simp add: c length_Map_delete_le)
  with full c have "length (Map_delete k0 (cache c)) < MAX_CACHE_SIZE" by simp
  moreover have "cache (set_cache now k d t c) =
      Map_set k \<lparr>data = d, timestamp = now, ttl = t, key = k\<rparr> (Map_delete k0 (cache c))"
    using full k0 by (simp add: set_cache_full c)
  ultimately show ?thesis by (simp add: length_Map_set)
qed

lemma Map_delete_bounded:
  assumes "length m \<le> n" and "[] \<notin> set (map fst m)"
  shows "length (Map_delete k m) \<le> n \<and> [] \<notin> set (map fst (Map_delete k m))"
proof -
  have "length (Map_delete k m) \<le> length m" by (rule length_Map_delete_le)
  moreover have "set (map fst (Map_delete k m)) \<subseteq> set (map fst m)"
    by (auto simp: Map_delete_filter)
  ultimately show ?thesis using assms by auto
qed

lemma apply_op_bounded:
  assumes "length (cache c) \<le> MAX_CACHE_SIZE" and "[] \<notin> set (map fst (cache c))"
    and "[] \<notin> set (set_keys [x])"
  shows "length (cache (apply_op x c)) \<le> MAX_CACHE_SIZE \<and> [] \<notin> set (map fst (cache (apply_op x c)))"
proof (cases x)
  case (Set now k d t)
  with assms(3) have "k \<noteq> []" by auto
  with set_cache_keys [of now k d t c] assms(2) have "[] \<notin> set (map fst (cache (set_cache now k d t c)))"
    by auto
  with set_cache_length [OF assms(1,2)] Set show ?thesis by simp
next
  case (Get now k)
  with assms(1,2) Map_delete_bounded [OF assms(1,2), of k] show ?thesis
    by (simp add: get_def split: option.splits)
next
  case (Has now k)
  with assms(1,2) Map_delete_bounded [OF assms(1,2), of k] show ?thesis
    by (simp add: has_def split: option.splits)
next
  case (Delete k)
  with Map_delete_bounded [OF assms(1,2), of k] show ?thesis
    by (simp add: delete_def)
next
  case Clear
  then show ?thesis by (simp add: clear_def)
qed

lemma set_keys_Cons: "[] \<notin> set (set_keys (x # xs)) \<longleftrightarrow> [] \<notin> set (set_keys [x]) \<and> [] \<notin> set (set_keys xs)"
  by (cases x) auto

lemma run_ops_bounded:
  "length (cache c) \<le> MAX_CACHE_SIZE \<Longrightarrow> [] \<notin> set (map fst (cache c)) \<Longrightarrow> [] \<notin> set (set_keys ops) \<Longrightarrow>
   length (cache (run_ops ops c)) \<le> MAX_CACHE_SIZE"
proof (induction ops arbitrary: c)
  case Nil
  then show ?case by simp
next
  case (Cons x xs)
  from Cons.prems(3) have x: "[] \<notin> set (set_keys [x])" and xs: "[] \<notin> set (set_keys xs)"
    using set_keys_Cons [of x xs] by blast+
  from apply_op_bounded [OF Cons.prems(1,2) x] Cons.IH [OF _ _ xs] show ?case
    by simp
qed

lemma size_bounded_nonempty_keys:
  "[] \<notin> set (set_keys ops) \<Longrightarrow> length (cache (run_ops ops new_cache)) \<le> MAX_CACHE_SIZE"
  by (rule run_ops_bounded) (simp_all add: new_cache_def)




















section \<open>The Map invariant\<close>

text \<open>
  Every operation keeps the keys of the association list distinct, so the lists that
  occur are Maps.
\<close>

lemma Map_ok_forEach_delete: "Map_ok m \<Longrightarrow> Map_ok (forEach_delete ks m)"
  by (induction ks arbitrary: m) (auto simp: Map_ok_delete)

lemma Map_ok_set_cache: "Map_ok (cache c) \<Longrightarrow> Map_ok (cache (set_cache now k d t c))"
  by (simp add: set_cache_def Let_def Map_ok_set Map_ok_delete split: option.splits)

lemma Map_ok_get: "Map_ok (cache c) \<Longrightarrow> Map_ok (cache (snd (get now k c)))"
  by (simp add: get_def Map_ok_delete split: option.splits)

lemma Map_ok_has: "Map_ok (cache c) \<Longrightarrow> Map_ok (cache (snd (has now k c)))"
  by (simp add: has_def Map_ok_delete split: option.splits)

lemma Map_ok_cleanup: "Map_ok (cache c) \<Longrightarrow> Map_ok (cache (cleanup now c))"
  by (simp add: cleanup_def Map_ok_forEach_delete)

lemma Map_ok_apply_op: "Map_ok (cache c) \<Longrightarrow> Map_ok (cache (apply_op x c))"
proof (cases x)
  case Clear
  then show ?thesis by (simp add: clear_def Map_ok_def)
qed (simp_all add: Map_ok_set_cache Map_ok_get Map_ok_has delete_def Map_ok_delete)

lemma Map_ok_run_ops: "Map_ok (cache c) \<Longrightarrow> Map_ok (cache (run_ops ops c))"
  by (induction ops arbitrary: c) (simp_all add: Map_ok_apply_op)

section \<open>Current quote: choosing between the two sources\<close>

lemma fetchCurrentGoldPrice_miss:
  assumes "hit (fst (get t_get ''current_gold_price'' c)) = None"
  shows "fetchCurrentGoldPrice t_get t_set api c =
     (let c1 = snd (get t_get ''current_gold_price'' c);
          goldData = (if fulfilled_data0 (quote api ''GCUSD'') then value_data0 (quote api ''GCUSD'')
                      else if fulfilled_data0 (quote api ''GLD'') then value_data0 (quote api ''GLD'')
                      else JNull)
      in if \<not> truthy goldData then (Inl NoGoldData, [QuoteReq ''GLD'', QuoteReq ''GCUSD''], c1)
         else (Inr goldData, [QuoteReq ''GLD'', QuoteReq ''GCUSD''],
               set_cache t_set ''current_gold_price'' goldData CURRENT_PRICE_TTL c1))"
proof -
  obtain x1 x2 where g: "get t_get ''current_gold_price'' c = (x1, x2)"
    by (cases "get t_get ''current_gold_price'' c")
  with assms have "hit x1 = None" by simp
  then show ?thesis
    by (simp add: fetchCurrentGoldPrice_def g Let_def)
qed

lemma empty_response: "r = Rejected \<or> r = Fulfilled [] \<Longrightarrow> \<not> fulfilled_data0 r"
  by auto

text \<open>
  C4. On a cache miss \<open>fetchCurrentGoldPrice\<close> issues the two quote requests. If the GCUSD
  request fulfilled with a non-empty array whose first element is truthy (a record is), the
  result is that element; otherwise, if GCUSD rejected or fulfilled empty and GLD fulfilled
  with such an array, the result is GLD's first element; if each of the two rejected or
  fulfilled empty, the fetch fails with the no-data error and stores nothing.
\<close>

theorem fetchCurrentGoldPrice_selection:
  assumes "hit (fst (get t_get ''current_gold_price'' c)) = None"
  shows "fst (snd (fetchCurrentGoldPrice t_get t_set api c)) = [QuoteReq ''GLD'', QuoteReq ''GCUSD''] \<and>
         (\<forall>q qs. quote api ''GCUSD'' = Fulfilled (q # qs) \<and> truthy q \<longrightarrow>
            fst (fetchCurrentGoldPrice t_get t_set api c) = Inr q) \<and>
         (\<forall>q qs. (quote api ''GCUSD'' = Rejected \<or> quote api ''GCUSD'' = Fulfilled []) \<and>
                 quote api ''GLD'' = Fulfilled (q # qs) \<and> truthy q \<longrightarrow>
            fst (fetchCurrentGoldPrice t_get t_set api c) = Inr q) \<and>
         ((quote api ''GCUSD'' = Rejected \<or> quote api ''GCUSD'' = Fulfilled []) \<and>
          (quote api ''GLD'' = Rejected \<or> quote api ''GLD'' = Fulfilled []) \<longrightarrow>
            fetchCurrentGoldPrice t_get t_set api c =
              (Inl NoGoldData, [QuoteReq ''GLD'', QuoteReq ''GCUSD''],
               snd (get t_get ''current_gold_price'' c)))"
proof -
  note m = fetchCurrentGoldPrice_miss [OF assms, of t_set api]
  have reqs: "fst (snd (fetchCurrentGoldPrice t_get t_set api c)) = [QuoteReq ''GLD'', QuoteReq ''GCUSD'']"
    by (simp add: m Let_def)
  have gold: "fst (fetchCurrentGoldPrice t_get t_set api c) = Inr q"
    if "quote api ''GCUSD'' = Fulfilled (q # qs)" "truthy q" for q qs
    using that by (simp add: m Let_def)
  have gld: "fst (fetchCurrentGoldPrice t_get t_set api c) = Inr q"
    if "quote api ''GCUSD'' = Rejected \<or> quote api ''GCUSD'' = Fulfilled []"
       "quote api ''GLD'' = Fulfilled (q # qs)" "truthy q" for q qs
    using that(2,3) empty_response [OF that(1)] by (simp add: m Let_def)
  have none: "fetchCurrentGoldPrice t_get t_set api c =
      (Inl NoGoldData, [QuoteReq ''GLD'', QuoteReq ''GCUSD''], snd (get t_get ''current_gold_price'' c))"
    if "quote api ''GCUSD'' = Rejected \<or> quote api ''GCUSD'' = Fulfilled []"
       "quote api ''GLD'' = Rejected \<or> quote api ''GLD'' = Fulfilled []"
    using empty_response [OF that(1)] empty_response [OF that(2)] by (simp add: m Let_def)
  from reqs gold gld none show ?thesis by blast
qed

text \<open>
  Witness for C4: from the empty cache, a service where only GCUSD answers, one where GCUSD
  answers empty and GLD has data, and one with no data at all.
\<close>

theorem fetchCurrentGoldPrice_selection_witness:
  "hit (fst (get 0 ''current_gold_price'' new_cache)) = None \<and>
   fst (fetchCurrentGoldPrice 0 1 gold_only new_cache) = Inr quote_record \<and>
   fst (fetchCurrentGoldPrice 0 1 gld_only new_cache) = Inr quote_record \<and>
   fetchCurrentGoldPrice 0 1 no_data new_cache =
     (Inl NoGoldData, [QuoteReq ''GLD'', QuoteReq ''GCUSD''], new_cache)"
proof -
  have miss: "hit (fst (get 0 ''current_gold_price'' new_cache)) = None"
    by (simp add: get_def new_cache_def)
  have c1: "snd (get 0 ''current_gold_price'' (new_cache :: jsval MemoryCache)) = new_cache"
    by (simp add: get_def new_cache_def)
  have q: "truthy quote_record"
    by (simp add: quote_record_def)
  from fetchCurrentGoldPrice_selection [OF miss, of 1 gold_only]
    fetchCurrentGoldPrice_selection [OF miss, of 1 gld_only]
    fetchCurrentGoldPrice_selection [OF miss, of 1 no_data] miss c1 q
  show ?thesis
    by (simp add: gold_only_def gld_only_def no_data_def)
qed

section \<open>Historical range: fallback on a failed request\<close>

lemma fetchHistoricalData_miss:
  assumes "hit (fst (get t_get (''historical_'' @ timeframe) c)) = None"
    and "getDateRange timeframe = (start, stop)"
  shows "fetchHistoricalData t_get t_set getDateRange api timeframe c =
     (let c1 = snd (get t_get (''historical_'' @ timeframe) c);
          primary = HistoricalReq ''GCUSD'' start stop;
          secondary = HistoricalReq ''GLD'' start stop
      in case historical_price_full api ''GCUSD'' start stop of
           Fulfilled body \<Rightarrow>
             store_historical t_set (''historical_'' @ timeframe) [primary] (normalizeHistorical body) c1
         | Rejected \<Rightarrow>
             (case historical_price_full api ''GLD'' start stop of
                Fulfilled body \<Rightarrow>
                  store_historical t_set (''historical_'' @ timeframe) [primary, secondary] (normalizeHistorical body) c1
              | Rejected \<Rightarrow> (Inl RequestFailed, [primary, secondary], c1)))"
proof -
  obtain x1 x2 where g: "get t_get (''historical_'' @ timeframe) c = (x1, x2)"
    by (cases "get t_get (''historical_'' @ timeframe) c")
  with assms have "hit x1 = None" by simp
  then show ?thesis
    unfolding fetchHistoricalData_def Let_def g assms(2) by (simp split: settled.splits)
qed

lemma store_historical_requests: "fst (snd (store_historical t_set k reqs h c1)) = reqs"
  by (simp add: store_historical_def)

lemma store_historical_empty:
  "\<not> truthy h \<or> length_is_0 h \<Longrightarrow> store_historical t_set k reqs h c1 = (Inl NoHistoricalData, reqs, c1)"
  by (auto simp: store_historical_def)

lemma store_historical_data:
  "truthy h \<Longrightarrow> \<not> length_is_0 h \<Longrightarrow>
   store_historical t_set k reqs h c1 = (Inr h, reqs, set_cache t_set k h HISTORICAL_DATA_TTL c1)"
  by (simp add: store_historical_def)

lemma normalizeHistorical_shapes:
  "normalizeHistorical (JArr xs) = JArr xs"
  "Map_get ''historical'' ps = Some (JArr xs) \<Longrightarrow> normalizeHistorical (JObj ps) = JArr xs"
  by (simp_all add: normalizeHistorical_def)

text \<open>
  C5. On a cache miss \<open>fetchHistoricalData\<close> asks GCUSD for the computed range. GLD is
  asked, for the same range, exactly when the GCUSD request rejected; a fulfilled GCUSD
  request is final whatever its body. The body that answered is normalised and handed to
  \<open>store_historical\<close>, which fails with the no-data error when the normalised data is
  falsy or has length 0 and stores and returns it otherwise; when both requests reject
  the fetch fails with the request's error. A bare array and an object holding the array
  under \<open>historical\<close> normalise to the same array; a falsy body and a body that is
  neither normalise to the empty array.
\<close>

theorem fetchHistoricalData_fallback:
  assumes "hit (fst (get t_get (''historical_'' @ timeframe) c)) = None"
    and "getDateRange timeframe = (start, stop)"
  shows "(\<forall>body. historical_price_full api ''GCUSD'' start stop = Fulfilled body \<longrightarrow>
            fetchHistoricalData t_get t_set getDateRange api timeframe c =
              store_historical t_set (''historical_'' @ timeframe) [HistoricalReq ''GCUSD'' start stop]
                (normalizeHistorical body) (snd (get t_get (''historical_'' @ timeframe) c))) \<and>
         (\<forall>body. historical_price_full api ''GCUSD'' start stop = Rejected \<and>
                 historical_price_full api ''GLD'' start stop = Fulfilled body \<longrightarrow>
            fetchHistoricalData t_get t_set getDateRange api timeframe c =
              store_historical t_set (''historical_'' @ timeframe)
                [HistoricalReq ''GCUSD'' start stop, HistoricalReq ''GLD'' start stop]
                (normalizeHistorical body) (snd (get t_get (''historical_'' @ timeframe) c))) \<and>
         (historical_price_full api ''GCUSD'' start stop = Rejected \<and>
          historical_price_full api ''GLD'' start stop = Rejected \<longrightarrow>
            fetchHistoricalData t_get t_set getDateRange api timeframe c =
              (Inl RequestFailed, [HistoricalReq ''GCUSD'' start stop, HistoricalReq ''GLD'' start stop],
               snd (get t_get (''historical_'' @ timeframe) c))) \<and>
         hd (fst (snd (fetchHistoricalData t_get t_set getDateRange api timeframe c))) =
           HistoricalReq ''GCUSD'' start stop \<and>
         (HistoricalReq ''GLD'' start stop \<in> set (fst (snd (fetchHistoricalData t_get t_set getDateRange api timeframe c)))
            \<longleftrightarrow> historical_price_full api ''GCUSD'' start stop = Rejected) \<and>
         (\<forall>reqs h c1. \<not> truthy h \<or> length_is_0 h \<longrightarrow>
            store_historical t_set (''historical_'' @ timeframe) reqs h c1 = (Inl NoHistoricalData, reqs, c1)) \<and>
         (\<forall>reqs h c1. truthy h \<and> \<not> length_is_0 h \<longrightarrow>
            store_historical t_set (''historical_'' @ timeframe) reqs h c1 =
              (Inr h, reqs, set_cache t_set (''historical_'' @ timeframe) h HISTORICAL_DATA_TTL c1)) \<and>
         (\<forall>xs. normalizeHistorical (JArr xs) = JArr xs) \<and>
         (\<forall>ps xs. Map_get ''historical'' ps = Some (JArr xs) \<longrightarrow> normalizeHistorical (JObj ps) = JArr xs) \<and>
         (\<forall>body. \<not> truthy body \<or> (\<not> isArray body \<and> \<not> truthy (prop_historical body)) \<longrightarrow>
            normalizeHistorical body = JArr [])"
proof -
  note m = fetchHistoricalData_miss
    [where getDateRange = getDateRange and timeframe = timeframe, OF assms, of t_set api]
  have 1: "fetchHistoricalData t_get t_set getDateRange api timeframe c =
              store_historical t_set (''historical_'' @ timeframe) [HistoricalReq ''GCUSD'' start stop]
                (normalizeHistorical body) (snd (get t_get (''historical_'' @ timeframe) c))"
    if "historical_price_full api ''GCUSD'' start stop = Fulfilled body" for body
    using that by (simp add: m Let_def)
  have 2: "fetchHistoricalData t_get t_set getDateRange api timeframe c =
              store_historical t_set (''historical_'' @ timeframe)
                [HistoricalReq ''GCUSD'' start stop, HistoricalReq ''GLD'' start stop]
                (normalizeHistorical body) (snd (get t_get (''historical_'' @ timeframe) c))"
    if "historical_price_full api ''GCUSD'' start stop = Rejected"
       "historical_price_full api ''GLD'' start stop = Fulfilled body" for body
    using that by (simp add: m Let_def)
  have 3: "fetchHistoricalData t_get t_set getDateRange api timeframe c =
              (Inl RequestFailed, [HistoricalReq ''GCUSD'' start stop, HistoricalReq ''GLD'' start stop],
               snd (get t_get (''historical_'' @ timeframe) c))"
    if "historical_price_full api ''GCUSD'' start stop = Rejected"
       "historical_price_full api ''GLD'' start stop = Rejected"
    using that by (simp add: m Let_def)
  have 4: "hd (fst (snd (fetchHistoricalData t_get t_set getDateRange api timeframe c))) =
           HistoricalReq ''GCUSD'' start stop"
    by (simp add: m Let_def store_historical_requests split: settled.splits)
  have 5: "HistoricalReq ''GLD'' start stop \<in> set (fst (snd (fetchHistoricalData t_get t_set getDateRange api timeframe c)))
            \<longleftrightarrow> historical_price_full api ''GCUSD'' start stop = Rejected"
    by (simp add: m Let_def store_historical_requests split: settled.splits)
  have 6: "normalizeHistorical body = JArr []"
    if "\<not> truthy body \<or> (\<not> isArray body \<and> \<not> truthy (prop_historical body))" for body
    using that by (auto simp: normalizeHistorical_def)
  show ?thesis
    using 1 2 3 4 5 6 store_historical_empty store_historical_data normalizeHistorical_shapes
    by (intro conjI allI impI) (blast | simp)+
qed

text \<open>
  Witness for C5: GCUSD answering with the wrapped shape; GCUSD rejecting and GLD answering
  with the bare array; GCUSD answering with an empty array.
\<close>

theorem fetchHistoricalData_fallback_witness:
  "hit (fst (get 0 (''historical_'' @ ''1M'') new_cache)) = None \<and>
   one_month ''1M'' = (''2024-01-01'', ''2024-02-01'') \<and>
   fetchHistoricalData 0 1 one_month gold_only ''1M'' new_cache =
     (Inr (JArr [day_record]), [HistoricalReq ''GCUSD'' ''2024-01-01'' ''2024-02-01''],
      set_cache 1 ''historical_1M'' (JArr [day_record]) HISTORICAL_DATA_TTL new_cache) \<and>
   fetchHistoricalData 0 1 one_month gld_only ''1M'' new_cache =
     (Inr (JArr [day_record]),
      [HistoricalReq ''GCUSD'' ''2024-01-01'' ''2024-02-01'', HistoricalReq ''GLD'' ''2024-01-01'' ''2024-02-01''],
      set_cache 1 ''historical_1M'' (JArr [day_record]) HISTORICAL_DATA_TTL new_cache) \<and>
   fetchHistoricalData 0 1 one_month no_data ''1M'' new_cache =
     (Inl NoHistoricalData, [HistoricalReq ''GCUSD'' ''2024-01-01'' ''2024-02-01''], new_cache)"
proof -
  have miss: "hit (fst (get 0 (''historical_'' @ ''1M'') new_cache)) = None"
    by (simp add: get_def new_cache_def)
  have c1: "snd (get 0 ''historical_1M'' (new_cache :: jsval MemoryCache)) = new_cache"
    by (simp add: get_def new_cache_def)
  have r: "one_month ''1M'' = (''2024-01-01'', ''2024-02-01'')"
    by (simp add: one_month_def)
  from fetchHistoricalData_fallback [where getDateRange = one_month and timeframe = "''1M''", OF miss r, of gold_only 1]
    fetchHistoricalData_fallback [where getDateRange = one_month and timeframe = "''1M''", OF miss r, of gld_only 1]
    fetchHistoricalData_fallback [where getDateRange = one_month and timeframe = "''1M''", OF miss r, of no_data 1] miss c1 r
  show ?thesis
    by (simp add: gold_only_def gld_only_def no_data_def normalizeHistorical_def store_historical_def)
qed

section \<open>Cache hits\<close>

text \<open>
  Every value in the server's cache is truthy: the fetch operations store nothing else.
\<close>

lemma list_all_Map_delete: "list_all P m \<Longrightarrow> list_all P (Map_delete k m)"
  by (induction m) auto

lemma list_all_Map_set: "list_all P m \<Longrightarrow> P (k, v) \<Longrightarrow> list_all P (Map_set k v m)"
  by (induction m) auto

lemma list_all_forEach_delete: "list_all P m \<Longrightarrow> list_all P (forEach_delete ks m)"
  by (induction ks arbitrary: m) (auto simp: list_all_Map_delete)

lemma all_truthy_get: "all_truthy c \<Longrightarrow> all_truthy (snd (get now k c))"
  by (auto simp: all_truthy_def get_def list_all_Map_delete split: option.splits)

lemma all_truthy_has: "all_truthy c \<Longrightarrow> all_truthy (snd (has now k c))"
  by (auto simp: all_truthy_def has_def list_all_Map_delete split: option.splits)

lemma all_truthy_set_cache: "all_truthy c \<Longrightarrow> truthy d \<Longrightarrow> all_truthy (set_cache now k d t c)"
  by (auto simp: all_truthy_def set_cache_def Let_def list_all_Map_delete list_all_Map_set
      split: option.splits)

lemma all_truthy_cleanup: "all_truthy c \<Longrightarrow> all_truthy (cleanup now c)"
  by (simp add: all_truthy_def cleanup_def list_all_forEach_delete)

lemma all_truthy_clear: "all_truthy (clear c)"
  by (simp add: all_truthy_def clear_def)

lemma all_truthy_current:
  assumes "all_truthy c"
  shows "all_truthy (snd (snd (fetchCurrentGoldPrice t_get t_set api c)))"
proof -
  obtain x1 x2 where g: "get t_get ''current_gold_price'' c = (x1, x2)"
    by (cases "get t_get ''current_gold_price'' c")
  with all_truthy_get [OF assms, of t_get "''current_gold_price''"] have "all_truthy x2" by simp
  then show ?thesis
    by (simp add: fetchCurrentGoldPrice_def g Let_def all_truthy_set_cache split: option.splits)
qed

lemma all_truthy_store_historical:
  "all_truthy c1 \<Longrightarrow> all_truthy (snd (snd (store_historical t_set k reqs h c1)))"
  by (simp add: store_historical_def all_truthy_set_cache)

lemma all_truthy_historical:
  assumes "all_truthy c"
  shows "all_truthy (snd (snd (fetchHistoricalData t_get t_set getDateRange api timeframe c)))"
proof -
  obtain x1 x2 where g: "get t_get (''historical_'' @ timeframe) c = (x1, x2)"
    by (cases "get t_get (''historical_'' @ timeframe) c")
  with all_truthy_get [OF assms, of t_get "''historical_'' @ timeframe"] have "all_truthy x2" by simp
  then show ?thesis
    unfolding fetchHistoricalData_def Let_def g
    by (simp add: all_truthy_store_historical split: option.splits prod.splits settled.splits)
qed

lemma all_truthy_date:
  assumes "all_truthy c"
  shows "all_truthy (snd (snd (fetchDateSpecificData t_get t_set api date c)))"
proof -
  obtain x1 x2 where g: "get t_get (''date_'' @ date) c = (x1, x2)"
    by (cases "get t_get (''date_'' @ date) c")
  with all_truthy_get [OF assms, of t_get "''date_'' @ date"] have "all_truthy x2" by simp
  then show ?thesis
    unfolding fetchDateSpecificData_def Let_def g
    by (simp add: all_truthy_set_cache split: option.splits settled.splits)
qed

lemma reachable_all_truthy: "reachable c \<Longrightarrow> all_truthy c"
proof (induction rule: reachable.induct)
  case reach_new
  then show ?case by (simp add: all_truthy_def new_cache_def)
next
  case (reach_current c t_get t_set api)
  then show ?case by (simp add: all_truthy_current)
next
  case (reach_historical c t_get t_set getDateRange api timeframe)
  then show ?case by (simp add: all_truthy_historical)
next
  case (reach_date c t_get t_set api date)
  then show ?case by (simp add: all_truthy_date)
next
  case (reach_has c now k)
  then show ?case by (simp add: all_truthy_has)
next
  case (reach_cleanup c now)
  then show ?case by (simp add: all_truthy_cleanup)
next
  case (reach_clear c)
  then show ?case by (simp add: all_truthy_clear)
qed

lemma all_truthy_entry: "all_truthy c \<Longrightarrow> Map_get k (cache c) = Some e \<Longrightarrow> truthy (data e)"
proof -
  assume "all_truthy c" and "Map_get k (cache c) = Some e"
  then have "\<forall>p \<in> set (cache c). truthy (data (snd p))" and "(k, e) \<in> set (cache c)"
    by (simp_all add: all_truthy_def list_all_iff Map_get_SomeD)
  then show ?thesis by force
qed

lemma get_live:
  "Map_get k (cache c) = Some e \<Longrightarrow> now - timestamp e \<le> ttl e \<Longrightarrow> get now k c = (Some (data e), c)"
  by (simp add: get_def)

lemma current_hit:
  assumes "Map_get ''current_gold_price'' (cache c) = Some e" "t_get - timestamp e \<le> ttl e" "truthy (data e)"
  shows "fetchCurrentGoldPrice t_get t_set api c = (Inr (data e), [], c)"
  using assms(3) by (simp add: fetchCurrentGoldPrice_def get_live [OF assms(1,2)])

lemma historical_hit:
  assumes "Map_get (''historical_'' @ timeframe) (cache c) = Some e" "t_get - timestamp e \<le> ttl e" "truthy (data e)"
  shows "fetchHistoricalData t_get t_set getDateRange api timeframe c = (Inr (data e), [], c)"
  unfolding fetchHistoricalData_def Let_def get_live [OF assms(1,2)] using assms(3) by simp

lemma date_hit:
  assumes "Map_get (''date_'' @ date) (cache c) = Some e" "t_get - timestamp e \<le> ttl e" "truthy (data e)"
  shows "fetchDateSpecificData t_get t_set api date c = (Inr (data e), [], c)"
  unfolding fetchDateSpecificData_def Let_def get_live [OF assms(1,2)] using assms(3) by simp

lemma set_cache_entry:
  "Map_get k (cache (set_cache now k d t c)) = Some \<lparr>data = d, timestamp = now, ttl = t, key = k\<rparr>"
  by (simp add: set_cache_def Let_def Map_get_set split: option.splits)

text \<open>A fetch that issued requests and returned a value has stored it under its key.\<close>

lemma current_fresh:
  assumes "fetchCurrentGoldPrice t_get t_set api c = (Inr v, reqs, c1)" "reqs \<noteq> []"
  shows "truthy v \<and> c1 = set_cache t_set ''current_gold_price'' v CURRENT_PRICE_TTL
                              (snd (get t_get ''current_gold_price'' c))"
proof -
  obtain x1 x2 where g: "get t_get ''current_gold_price'' c = (x1, x2)"
    by (cases "get t_get ''current_gold_price'' c")
  from assms show ?thesis
    by (auto simp: fetchCurrentGoldPrice_def g Let_def split: option.splits if_splits)
qed

lemma store_historical_fresh:
  "store_historical t_set k reqs' h c' = (Inr v, reqs, c1) \<Longrightarrow>
   truthy v \<and> c1 = set_cache t_set k v HISTORICAL_DATA_TTL c'"
  by (auto simp: store_historical_def split: if_splits)

lemma historical_fresh:
  assumes "fetchHistoricalData t_get t_set getDateRange api timeframe c = (Inr v, reqs, c1)" "reqs \<noteq> []"
  shows "truthy v \<and> c1 = set_cache t_set (''historical_'' @ timeframe) v HISTORICAL_DATA_TTL
                              (snd (get t_get (''historical_'' @ timeframe) c))"
proof -
  obtain x1 x2 where g: "get t_get (''historical_'' @ timeframe) c = (x1, x2)"
    by (cases "get t_get (''historical_'' @ timeframe) c")
  from assms show ?thesis
    unfolding fetchHistoricalData_def Let_def g
    by (auto split: option.splits prod.splits settled.splits dest: store_historical_fresh)
qed

lemma date_fresh:
  assumes "fetchDateSpecificData t_get t_set api date c = (Inr v, reqs, c1)" "reqs \<noteq> []"
  shows "truthy v \<and> c1 = set_cache t_set (''date_'' @ date) v DATE_SPECIFIC_TTL
                              (snd (get t_get (''date_'' @ date) c))"
proof -
  obtain x1 x2 where g: "get t_get (''date_'' @ date) c = (x1, x2)"
    by (cases "get t_get (''date_'' @ date) c")
  from assms show ?thesis
    unfolding fetchDateSpecificData_def Let_def g
    by (auto split: option.splits settled.splits if_splits)
qed

lemma current_gold_only:
  "fetchCurrentGoldPrice 0 1 gold_only new_cache =
     (Inr quote_record, [QuoteReq ''GLD'', QuoteReq ''GCUSD''],
      \<lparr>cache = [(''current_gold_price'',
                 \<lparr>data = quote_record, timestamp = 1, ttl = 300000, key = ''current_gold_price''\<rparr>)]\<rparr>)"
  by (simp add: fetchCurrentGoldPrice_def get_def new_cache_def gold_only_def quote_record_def
      set_cache_def MAX_CACHE_SIZE_def CURRENT_PRICE_TTL_def Let_def)

text \<open>
  What each fetch operation does on a miss: the requests it issues, and the value it
  stores and returns when the first source answers with data.
\<close>

lemma fetchDateSpecificData_miss:
  assumes "hit (fst (get t_get (''date_'' @ date) c)) = None"
  shows "fetchDateSpecificData t_get t_set api date c =
     (let c1 = snd (get t_get (''date_'' @ date) c);
          requests = [HistoricalReq ''GCUSD'' date date]
      in case historical_price_full api ''GCUSD'' date date of
           Rejected \<Rightarrow> (Inl RequestFailed, requests, c1)
         | Fulfilled body \<Rightarrow>
             (let historicalData = (if truthy (prop_historical body) then prop_historical body else body);
                  dateData = (case historicalData of JArr xs \<Rightarrow> first_elem xs | _ \<Rightarrow> JNull)
              in if \<not> truthy dateData then (Inl (NoDateData date), requests, c1)
                 else (Inr dateData, requests,
                       set_cache t_set (''date_'' @ date) dateData DATE_SPECIFIC_TTL c1)))"
proof -
  obtain x1 x2 where g: "get t_get (''date_'' @ date) c = (x1, x2)"
    by (cases "get t_get (''date_'' @ date) c")
  with assms have "hit x1 = None" by simp
  then show ?thesis
    unfolding fetchDateSpecificData_def Let_def g by (simp split: settled.splits)
qed

lemma current_miss_requests:
  "hit (fst (get t_get ''current_gold_price'' c)) = None \<Longrightarrow>
   fst (snd (fetchCurrentGoldPrice t_get t_set api c)) = [QuoteReq ''GLD'', QuoteReq ''GCUSD'']"
  by (simp add: fetchCurrentGoldPrice_miss Let_def)

lemma historical_miss_requests:
  assumes "hit (fst (get t_get (''historical_'' @ timeframe) c)) = None"
  shows "fst (snd (fetchHistoricalData t_get t_set getDateRange api timeframe c)) \<noteq> []"
proof -
  obtain start stop where r: "getDateRange timeframe = (start, stop)"
    by (cases "getDateRange timeframe")
  show ?thesis
    by (simp add: fetchHistoricalData_miss
          [where getDateRange = getDateRange and timeframe = timeframe, OF assms r]
        Let_def store_historical_requests split: settled.splits)
qed

lemma date_miss_requests:
  "hit (fst (get t_get (''date_'' @ date) c)) = None \<Longrightarrow>
   fst (snd (fetchDateSpecificData t_get t_set api date c)) = [HistoricalReq ''GCUSD'' date date]"
  by (simp add: fetchDateSpecificData_miss Let_def split: settled.splits)

lemma current_miss_data:
  assumes "hit (fst (get t_get ''current_gold_price'' c)) = None"
    and "quote api ''GCUSD'' = Fulfilled (q # qs)" and "truthy q"
  shows "fetchCurrentGoldPrice t_get t_set api c =
     (Inr q, [QuoteReq ''GLD'', QuoteReq ''GCUSD''],
      set_cache t_set ''current_gold_price'' q CURRENT_PRICE_TTL (snd (get t_get ''current_gold_price'' c)))"
  using assms(2,3) by (simp add: fetchCurrentGoldPrice_miss [OF assms(1)] Let_def)

lemma historical_miss_data:
  assumes "hit (fst (get t_get (''historical_'' @ timeframe) c)) = None"
    and "getDateRange timeframe = (start, stop)"
    and "historical_price_full api ''GCUSD'' start stop = Fulfilled (JArr (x # xs))"
  shows "fetchHistoricalData t_get t_set getDateRange api timeframe c =
     (Inr (JArr (x # xs)), [HistoricalReq ''GCUSD'' start stop],
      set_cache t_set (''historical_'' @ timeframe) (JArr (x # xs)) HISTORICAL_DATA_TTL
        (snd (get t_get (''historical_'' @ timeframe) c)))"
  using assms(3)
  by (simp add: fetchHistoricalData_miss
        [where getDateRange = getDateRange and timeframe = timeframe, OF assms(1,2)]
      Let_def normalizeHistorical_shapes store_historical_data)

lemma date_miss_data:
  assumes "hit (fst (get t_get (''date_'' @ date) c)) = None"
    and "historical_price_full api ''GCUSD'' date date = Fulfilled (JArr (x # xs))" and "truthy x"
  shows "fetchDateSpecificData t_get t_set api date c =
     (Inr x, [HistoricalReq ''GCUSD'' date date],
      set_cache t_set (''date_'' @ date) x DATE_SPECIFIC_TTL (snd (get t_get (''date_'' @ date) c)))"
  using assms(2,3) by (simp add: fetchDateSpecificData_miss [OF assms(1)] Let_def)

lemma historical_gld_only:
  "fetchHistoricalData 0 1 one_month gld_only ''1M'' new_cache =
     (Inr (JArr [day_record]),
      [HistoricalReq ''GCUSD'' ''2024-01-01'' ''2024-02-01'', HistoricalReq ''GLD'' ''2024-01-01'' ''2024-02-01''],
      \<lparr>cache = [(''historical_1M'',
                 \<lparr>data = JArr [day_record], timestamp = 1, ttl = 1800000, key = ''historical_1M''\<rparr>)]\<rparr>)"
  by (simp add: fetchHistoricalData_def get_def new_cache_def gld_only_def one_month_def
      normalizeHistorical_def store_historical_def set_cache_def MAX_CACHE_SIZE_def
      HISTORICAL_DATA_TTL_def Let_def)

lemma date_gold_only:
  "fetchDateSpecificData 0 1 gold_only ''2024-01-02'' new_cache =
     (Inr day_record, [HistoricalReq ''GCUSD'' ''2024-01-02'' ''2024-01-02''],
      \<lparr>cache = [(''date_2024-01-02'',
                 \<lparr>data = day_record, timestamp = 1, ttl = 86400000, key = ''date_2024-01-02''\<rparr>)]\<rparr>)"
  by (simp add: fetchDateSpecificData_def get_def new_cache_def gold_only_def day_record_def
      set_cache_def MAX_CACHE_SIZE_def DATE_SPECIFIC_TTL_def Let_def)

text \<open>
  C6. In every state of the server's cache, each of the three fetch operations, when the
  cache holds an entry for its key with \<open>now - timestamp \<le> ttl\<close>, returns the value of
  that entry, issues no request and leaves the cache as it is. Hence after a fetch that
  issued requests and returned a value at time \<open>t_set\<close>, the same fetch called again
  within the ttl of its kind returns the same value and issues no request. The first of
  the two calls does go upstream: on a miss each operation issues its requests, and when
  GCUSD answers with data it returns that data and stores it under its key with the ttl
  of its kind.
\<close>

theorem cache_hit_makes_no_request:
  assumes "reachable c"
  shows "(\<forall>e. Map_get ''current_gold_price'' (cache c) = Some e \<and> t_get - timestamp e \<le> ttl e \<longrightarrow>
            fetchCurrentGoldPrice t_get t_set api c = (Inr (data e), [], c)) \<and>
         (\<forall>e. Map_get (''historical_'' @ timeframe) (cache c) = Some e \<and> t_get - timestamp e \<le> ttl e \<longrightarrow>
            fetchHistoricalData t_get t_set getDateRange api timeframe c = (Inr (data e), [], c)) \<and>
         (\<forall>e. Map_get (''date_'' @ date) (cache c) = Some e \<and> t_get - timestamp e \<le> ttl e \<longrightarrow>
            fetchDateSpecificData t_get t_set api date c = (Inr (data e), [], c)) \<and>
         (\<forall>v reqs c1 t_get' t_set' api'.
            fetchCurrentGoldPrice t_get t_set api c = (Inr v, reqs, c1) \<and> reqs \<noteq> [] \<and>
            t_get' - t_set \<le> CURRENT_PRICE_TTL \<longrightarrow>
            fetchCurrentGoldPrice t_get' t_set' api' c1 = (Inr v, [], c1)) \<and>
         (\<forall>v reqs c1 t_get' t_set' getDateRange' api'.
            fetchHistoricalData t_get t_set getDateRange api timeframe c = (Inr v, reqs, c1) \<and> reqs \<noteq> [] \<and>
            t_get' - t_set \<le> HISTORICAL_DATA_TTL \<longrightarrow>
            fetchHistoricalData t_get' t_set' getDateRange' api' timeframe c1 = (Inr v, [], c1)) \<and>
         (\<forall>v reqs c1 t_get' t_set' api'.
            fetchDateSpecificData t_get t_set api date c = (Inr v, reqs, c1) \<and> reqs \<noteq> [] \<and>
            t_get' - t_set \<le> DATE_SPECIFIC_TTL \<longrightarrow>
            fetchDateSpecificData t_get' t_set' api' date c1 = (Inr v, [], c1)) \<and>
         (hit (fst (get t_get ''current_gold_price'' c)) = None \<longrightarrow>
            fst (snd (fetchCurrentGoldPrice t_get t_set api c)) = [QuoteReq ''GLD'', QuoteReq ''GCUSD'']) \<and>
         (hit (fst (get t_get (''historical_'' @ timeframe) c)) = None \<longrightarrow>
            fst (snd (fetchHistoricalData t_get t_set getDateRange api timeframe c)) \<noteq> []) \<and>
         (hit (fst (get t_get (''date_'' @ date) c)) = None \<longrightarrow>
            fst (snd (fetchDateSpecificData t_get t_set api date c)) = [HistoricalReq ''GCUSD'' date date]) \<and>
         (\<forall>q qs. hit (fst (get t_get ''current_gold_price'' c)) = None \<and>
                 quote api ''GCUSD'' = Fulfilled (q # qs) \<and> truthy q \<longrightarrow>
            fetchCurrentGoldPrice t_get t_set api c =
              (Inr q, [QuoteReq ''GLD'', QuoteReq ''GCUSD''],
               set_cache t_set ''current_gold_price'' q CURRENT_PRICE_TTL
                 (snd (get t_get ''current_gold_price'' c)))) \<and>
         (\<forall>start stop x xs. hit (fst (get t_get (''historical_'' @ timeframe) c)) = None \<and>
                 getDateRange timeframe = (start, stop) \<and>
                 historical_price_full api ''GCUSD'' start stop = Fulfilled (JArr (x # xs)) \<longrightarrow>
            fetchHistoricalData t_get t_set getDateRange api timeframe c =
              (Inr (JArr (x # xs)), [HistoricalReq ''GCUSD'' start stop],
               set_cache t_set (''historical_'' @ timeframe) (JArr (x # xs)) HISTORICAL_DATA_TTL
                 (snd (get t_get (''historical_'' @ timeframe) c)))) \<and>
         (\<forall>x xs. hit (fst (get t_get (''date_'' @ date) c)) = None \<and>
                 historical_price_full api ''GCUSD'' date date = Fulfilled (JArr (x # xs)) \<and> truthy x \<longrightarrow>
            fetchDateSpecificData t_get t_set api date c =
              (Inr x, [HistoricalReq ''GCUSD'' date date],
               set_cache t_set (''date_'' @ date) x DATE_SPECIFIC_TTL
                 (snd (get t_get (''date_'' @ date) c))))"
proof -
  from assms have t: "all_truthy c" by (rule reachable_all_truthy)
  have 1: "\<forall>e. Map_get ''current_gold_price'' (cache c) = Some e \<and> t_get - timestamp e \<le> ttl e \<longrightarrow>
            fetchCurrentGoldPrice t_get t_set api c = (Inr (data e), [], c)"
  proof (intro allI impI, elim conjE)
    fix e
    assume e: "Map_get ''current_gold_price'' (cache c) = Some e" "t_get - timestamp e \<le> ttl e"
    from e all_truthy_entry [OF t e(1)]
    show "fetchCurrentGoldPrice t_get t_set api c = (Inr (data e), [], c)" by (rule current_hit)
  qed
  have 2: "\<forall>e. Map_get (''historical_'' @ timeframe) (cache c) = Some e \<and> t_get - timestamp e \<le> ttl e \<longrightarrow>
            fetchHistoricalData t_get t_set getDateRange api timeframe c = (Inr (data e), [], c)"
  proof (intro allI impI, elim conjE)
    fix e
    assume e: "Map_get (''historical_'' @ timeframe) (cache c) = Some e" "t_get - timestamp e \<le> ttl e"
    from e all_truthy_entry [OF t e(1)]
    show "fetchHistoricalData t_get t_set getDateRange api timeframe c = (Inr (data e), [], c)"
      by (rule historical_hit)
  qed
  have 3: "\<forall>e. Map_get (''date_'' @ date) (cache c) = Some e \<and> t_get - timestamp e \<le> ttl e \<longrightarrow>
            fetchDateSpecificData t_get t_set api date c = (Inr (data e), [], c)"
  proof (intro allI impI, elim conjE)
    fix e
    assume e: "Map_get (''date_'' @ date) (cache c) = Some e" "t_get - timestamp e \<le> ttl e"
    from e all_truthy_entry [OF t e(1)]
    show "fetchDateSpecificData t_get t_set api date c = (Inr (data e), [], c)" by (rule date_hit)
  qed
  have 4: "\<forall>v reqs c1 t_get' t_set' api'.
            fetchCurrentGoldPrice t_get t_set api c = (Inr v, reqs, c1) \<and> reqs \<noteq> [] \<and>
            t_get' - t_set \<le> CURRENT_PRICE_TTL \<longrightarrow>
            fetchCurrentGoldPrice t_get' t_set' api' c1 = (Inr v, [], c1)"
  proof (intro allI impI, elim conjE)
    fix v reqs c1 t_get' t_set' api'
    assume f: "fetchCurrentGoldPrice t_get t_set api c = (Inr v, reqs, c1)" "reqs \<noteq> []"
      and w: "t_get' - t_set \<le> CURRENT_PRICE_TTL"
    from current_fresh [OF f] have v: "truthy v"
      and e: "Map_get ''current_gold_price'' (cache c1)
                = Some \<lparr>data = v, timestamp = t_set, ttl = CURRENT_PRICE_TTL, key = ''current_gold_price''\<rparr>"
      by (simp_all only: set_cache_entry)
    from current_hit [OF e, of t_get' t_set' api'] v w
    show "fetchCurrentGoldPrice t_get' t_set' api' c1 = (Inr v, [], c1)" by simp
  qed
  have 5: "\<forall>v reqs c1 t_get' t_set' getDateRange' api'.
            fetchHistoricalData t_get t_set getDateRange api timeframe c = (Inr v, reqs, c1) \<and> reqs \<noteq> [] \<and>
            t_get' - t_set \<le> HISTORICAL_DATA_TTL \<longrightarrow>
            fetchHistoricalData t_get' t_set' getDateRange' api' timeframe c1 = (Inr v, [], c1)"
  proof (intro allI impI, elim conjE)
    fix v reqs c1 t_get' t_set' getDateRange' api'
    assume f: "fetchHistoricalData t_get t_set getDateRange api timeframe c = (Inr v, reqs, c1)" "reqs \<noteq> []"
      and w: "t_get' - t_set \<le> HISTORICAL_DATA_TTL"
    from historical_fresh [OF f] have v: "truthy v"
      and e: "Map_get (''historical_'' @ timeframe) (cache c1)
                = Some \<lparr>data = v, timestamp = t_set, ttl = HISTORICAL_DATA_TTL, key = ''historical_'' @ timeframe\<rparr>"
      by (simp_all only: set_cache_entry)
    from historical_hit [OF e, of t_get' t_set' getDateRange' api'] v w
    show "fetchHistoricalData t_get' t_set' getDateRange' api' timeframe c1 = (Inr v, [], c1)" by simp
  qed
  have 6: "\<forall>v reqs c1 t_get' t_set' api'.
            fetchDateSpecificData t_get t_set api date c = (Inr v, reqs, c1) \<and> reqs \<noteq> [] \<and>
            t_get' - t_set \<le> DATE_SPECIFIC_TTL \<longrightarrow>
            fetchDateSpecificData t_get' t_set' api' date c1 = (Inr v, [], c1)"
  proof (intro allI impI, elim conjE)
    fix v reqs c1 t_get' t_set' api'
    assume f: "fetchDateSpecificData t_get t_set api date c = (Inr v, reqs, c1)" "reqs \<noteq> []"
      and w: "t_get' - t_set \<le> DATE_SPECIFIC_TTL"
    from date_fresh [OF f] have v: "truthy v"
      and e: "Map_get (''date_'' @ date) (cache c1)
                = Some \<lparr>data = v, timestamp = t_set, ttl = DATE_SPECIFIC_TTL, key = ''date_'' @ date\<rparr>"
      by (simp_all only: set_cache_entry)
    from date_hit [OF e, of t_get' t_set' api'] v w
    show "fetchDateSpecificData t_get' t_set' api' date c1 = (Inr v, [], c1)" by simp
  qed
  have 7: "hit (fst (get t_get ''current_gold_price'' c)) = None \<longrightarrow>
            fst (snd (fetchCurrentGoldPrice t_get t_set api c)) = [QuoteReq ''GLD'', QuoteReq ''GCUSD'']"
    by (simp add: current_miss_requests)
  have 8: "hit (fst (get t_get (''historical_'' @ timeframe) c)) = None \<longrightarrow>
            fst (snd (fetchHistoricalData t_get t_set getDateRange api timeframe c)) \<noteq> []"
    using historical_miss_requests [of t_get timeframe c t_set getDateRange api] by blast
  have 9: "hit (fst (get t_get (''date_'' @ date) c)) = None \<longrightarrow>
            fst (snd (fetchDateSpecificData t_get t_set api date c)) = [HistoricalReq ''GCUSD'' date date]"
    using date_miss_requests [of t_get date c t_set api] by blast
  have 10: "\<forall>q qs. hit (fst (get t_get ''current_gold_price'' c)) = None \<and>
                 quote api ''GCUSD'' = Fulfilled (q # qs) \<and> truthy q \<longrightarrow>
            fetchCurrentGoldPrice t_get t_set api c =
              (Inr q, [QuoteReq ''GLD'', QuoteReq ''GCUSD''],
               set_cache t_set ''current_gold_price'' q CURRENT_PRICE_TTL
                 (snd (get t_get ''current_gold_price'' c)))"
  proof (intro allI impI, elim conjE)
    fix q qs
    assume "hit (fst (get t_get ''current_gold_price'' c)) = None"
      "quote api ''GCUSD'' = Fulfilled (q # qs)" "truthy q"
    then show "fetchCurrentGoldPrice t_get t_set api c =
              (Inr q, [QuoteReq ''GLD'', QuoteReq ''GCUSD''],
               set_cache t_set ''current_gold_price'' q CURRENT_PRICE_TTL
                 (snd (get t_get ''current_gold_price'' c)))"
      by (rule current_miss_data)
  qed
  have 11: "\<forall>start stop x xs. hit (fst (get t_get (''historical_'' @ timeframe) c)) = None \<and>
                 getDateRange timeframe = (start, stop) \<and>
                 historical_price_full api ''GCUSD'' start stop = Fulfilled (JArr (x # xs)) \<longrightarrow>
            fetchHistoricalData t_get t_set getDateRange api timeframe c =
              (Inr (JArr (x # xs)), [HistoricalReq ''GCUSD'' start stop],
               set_cache t_set (''historical_'' @ timeframe) (JArr (x # xs)) HISTORICAL_DATA_TTL
                 (snd (get t_get (''historical_'' @ timeframe) c)))"
  proof (intro allI impI, elim conjE)
    fix start stop x xs
    assume m: "hit (fst (get t_get (''historical_'' @ timeframe) c)) = None"
      and r: "getDateRange timeframe = (start, stop)"
      and f: "historical_price_full api ''GCUSD'' start stop = Fulfilled (JArr (x # xs))"
    show "fetchHistoricalData t_get t_set getDateRange api timeframe c =
              (Inr (JArr (x # xs)), [HistoricalReq ''GCUSD'' start stop],
               set_cache t_set (''historical_'' @ timeframe) (JArr (x # xs)) HISTORICAL_DATA_TTL
                 (snd (get t_get (''historical_'' @ timeframe) c)))"
      by (rule historical_miss_data
            [where getDateRange = getDateRange and timeframe = timeframe, OF m r f])
  qed
  have 12: "\<forall>x xs. hit (fst (get t_get (''date_'' @ date) c)) = None \<and>
                 historical_price_full api ''GCUSD'' date date = Fulfilled (JArr (x # xs)) \<and> truthy x \<longrightarrow>
            fetchDateSpecificData t_get t_set api date c =
              (Inr x, [HistoricalReq ''GCUSD'' date date],
               set_cache t_set (''date_'' @ date) x DATE_SPECIFIC_TTL
                 (snd (get t_get (''date_'' @ date) c)))"
  proof (intro allI impI, elim conjE)
    fix x xs
    assume "hit (fst (get t_get (''date_'' @ date) c)) = None"
      "historical_price_full api ''GCUSD'' date date = Fulfilled (JArr (x # xs))" "truthy x"
    then show "fetchDateSpecificData t_get t_set api date c =
              (Inr x, [HistoricalReq ''GCUSD'' date date],
               set_cache t_set (''date_'' @ date) x DATE_SPECIFIC_TTL
                 (snd (get t_get (''date_'' @ date) c)))"
      by (rule date_miss_data)
  qed
  show ?thesis
    by (intro conjI 1 2 3 4 5 6 7 8 9 10 11 12)
qed

text \<open>
  Witness for C6: each of the three fetches called on the empty cache at time 1, where it
  issues its requests and stores the result, and called again at the last instant of its
  ttl against a service that has no data, where it issues none.
\<close>

theorem cache_hit_makes_no_request_witness:
  "reachable new_cache \<and>
   hit (fst (get 0 ''current_gold_price'' new_cache)) = None \<and>
   hit (fst (get 0 (''historical_'' @ ''1M'') new_cache)) = None \<and>
   hit (fst (get 0 (''date_'' @ ''2024-01-02'') new_cache)) = None \<and>
   fetchCurrentGoldPrice 0 1 gold_only new_cache =
     (Inr quote_record, [QuoteReq ''GLD'', QuoteReq ''GCUSD''],
      \<lparr>cache = [(''current_gold_price'',
                 \<lparr>data = quote_record, timestamp = 1, ttl = 300000, key = ''current_gold_price''\<rparr>)]\<rparr>) \<and>
   fetchCurrentGoldPrice 300001 300002 no_data
      \<lparr>cache = [(''current_gold_price'',
                 \<lparr>data = quote_record, timestamp = 1, ttl = 300000, key = ''current_gold_price''\<rparr>)]\<rparr> =
     (Inr quote_record, [],
      \<lparr>cache = [(''current_gold_price'',
                 \<lparr>data = quote_record, timestamp = 1, ttl = 300000, key = ''current_gold_price''\<rparr>)]\<rparr>) \<and>
   fetchHistoricalData 0 1 one_month gld_only ''1M'' new_cache =
     (Inr (JArr [day_record]),
      [HistoricalReq ''GCUSD'' ''2024-01-01'' ''2024-02-01'', HistoricalReq ''GLD'' ''2024-01-01'' ''2024-02-01''],
      \<lparr>cache = [(''historical_1M'',
                 \<lparr>data = JArr [day_record], timestamp = 1, ttl = 1800000, key = ''historical_1M''\<rparr>)]\<rparr>) \<and>
   fetchHistoricalData 1800001 1800002 one_month no_data ''1M''
      \<lparr>cache = [(''historical_1M'',
                 \<lparr>data = JArr [day_record], timestamp = 1, ttl = 1800000, key = ''historical_1M''\<rparr>)]\<rparr> =
     (Inr (JArr [day_record]), [],
      \<lparr>cache = [(''historical_1M'',
                 \<lparr>data = JArr [day_record], timestamp = 1, ttl = 1800000, key = ''historical_1M''\<rparr>)]\<rparr>) \<and>
   fetchDateSpecificData 0 1 gold_only ''2024-01-02'' new_cache =
     (Inr day_record, [HistoricalReq ''GCUSD'' ''2024-01-02'' ''2024-01-02''],
      \<lparr>cache = [(''date_2024-01-02'',
                 \<lparr>data = day_record, timestamp = 1, ttl = 86400000, key = ''date_2024-01-02''\<rparr>)]\<rparr>) \<and>
   fetchDateSpecificData 86400001 86400002 no_data ''2024-01-02''
      \<lparr>cache = [(''date_2024-01-02'',
                 \<lparr>data = day_record, timestamp = 1, ttl = 86400000, key = ''date_2024-01-02''\<rparr>)]\<rparr> =
     (Inr day_record, [],
      \<lparr>cache = [(''date_2024-01-02'',
                 \<lparr>data = day_record, timestamp = 1, ttl = 86400000, key = ''date_2024-01-02''\<rparr>)]\<rparr>) \<and>
   fst (snd (fetchDateSpecificData 0 1 no_data ''2024-01-02'' new_cache)) =
     [HistoricalReq ''GCUSD'' ''2024-01-02'' ''2024-01-02'']"
proof -
  note facts = cache_hit_makes_no_request
    [OF reach_new, where t_get = 0 and t_set = 1 and timeframe = "''1M''"
       and getDateRange = one_month and date = "''2024-01-02''"]
  have m1: "hit (fst (get 0 ''current_gold_price'' new_cache)) = None"
    and m2: "hit (fst (get 0 (''historical_'' @ ''1M'') new_cache)) = None"
    and m3: "hit (fst (get 0 (''date_'' @ ''2024-01-02'') new_cache)) = None"
    by (simp_all add: get_def new_cache_def)
  have w1: "300001 - 1 \<le> CURRENT_PRICE_TTL"
    and w2: "1800001 - 1 \<le> HISTORICAL_DATA_TTL"
    and w3: "86400001 - 1 \<le> DATE_SPECIFIC_TTL"
    by (simp_all add: CURRENT_PRICE_TTL_def HISTORICAL_DATA_TTL_def DATE_SPECIFIC_TTL_def)
  from facts [of gold_only] have again1:
    "\<forall>v reqs c1 t_get' t_set' api'.
       fetchCurrentGoldPrice 0 1 gold_only new_cache = (Inr v, reqs, c1) \<and> reqs \<noteq> [] \<and>
       t_get' - 1 \<le> CURRENT_PRICE_TTL \<longrightarrow>
       fetchCurrentGoldPrice t_get' t_set' api' c1 = (Inr v, [], c1)"
    by (elim conjE)
  from facts [of gld_only] have again2:
    "\<forall>v reqs c1 t_get' t_set' getDateRange' api'.
       fetchHistoricalData 0 1 one_month gld_only ''1M'' new_cache = (Inr v, reqs, c1) \<and> reqs \<noteq> [] \<and>
       t_get' - 1 \<le> HISTORICAL_DATA_TTL \<longrightarrow>
       fetchHistoricalData t_get' t_set' getDateRange' api' ''1M'' c1 = (Inr v, [], c1)"
    by (elim conjE)
  from facts [of gold_only] have again3:
    "\<forall>v reqs c1 t_get' t_set' api'.
       fetchDateSpecificData 0 1 gold_only ''2024-01-02'' new_cache = (Inr v, reqs, c1) \<and> reqs \<noteq> [] \<and>
       t_get' - 1 \<le> DATE_SPECIFIC_TTL \<longrightarrow>
       fetchDateSpecificData t_get' t_set' api' ''2024-01-02'' c1 = (Inr v, [], c1)"
    by (elim conjE)
  from facts [of no_data] m3 have miss3:
    "fst (snd (fetchDateSpecificData 0 1 no_data ''2024-01-02'' new_cache)) =
       [HistoricalReq ''GCUSD'' ''2024-01-02'' ''2024-01-02'']"
    by (elim conjE) simp
  from again1 [rule_format, of quote_record "[QuoteReq ''GLD'', QuoteReq ''GCUSD'']" _ 300001 300002 no_data]
    current_gold_only w1
  have s1: "fetchCurrentGoldPrice 300001 300002 no_data
      \<lparr>cache = [(''current_gold_price'',
                 \<lparr>data = quote_record, timestamp = 1, ttl = 300000, key = ''current_gold_price''\<rparr>)]\<rparr> =
     (Inr quote_record, [],
      \<lparr>cache = [(''current_gold_price'',
                 \<lparr>data = quote_record, timestamp = 1, ttl = 300000, key = ''current_gold_price''\<rparr>)]\<rparr>)"
    by simp
  from again2 [rule_format, of "JArr [day_record]" _ _ 1800001 1800002 one_month no_data]
    historical_gld_only w2
  have s2: "fetchHistoricalData 1800001 1800002 one_month no_data ''1M''
      \<lparr>cache = [(''historical_1M'',
                 \<lparr>data = JArr [day_record], timestamp = 1, ttl = 1800000, key = ''historical_1M''\<rparr>)]\<rparr> =
     (Inr (JArr [day_record]), [],
      \<lparr>cache = [(''historical_1M'',
                 \<lparr>data = JArr [day_record], timestamp = 1, ttl = 1800000, key = ''historical_1M''\<rparr>)]\<rparr>)"
    by simp
  from again3 [rule_format, of day_record _ _ 86400001 86400002 no_data]
    date_gold_only w3
  have s3: "fetchDateSpecificData 86400001 86400002 no_data ''2024-01-02''
      \<lparr>cache = [(''date_2024-01-02'',
                 \<lparr>data = day_record, timestamp = 1, ttl = 86400000, key = ''date_2024-01-02''\<rparr>)]\<rparr> =
     (Inr day_record, [],
      \<lparr>cache = [(''date_2024-01-02'',
                 \<lparr>data = day_record, timestamp = 1, ttl = 86400000, key = ''date_2024-01-02''\<rparr>)]\<rparr>)"
    by simp
  from reach_new m1 m2 m3 current_gold_only historical_gld_only date_gold_only s1 s2 s3 miss3
  show ?thesis by (intro conjI)
qed

section \<open>The \<open>cached\<close> flag of a response\<close>

text \<open>
  The handler asks \<open>has\<close> after the fetch has stored its result, so a fresh fetch is
  reported as cached whenever \<open>has\<close> runs within the ttl of the store.
\<close>

lemma has_live:
  "Map_get k (cache c) = Some e \<Longrightarrow> now - timestamp e \<le> ttl e \<Longrightarrow> has now k c = (True, c)"
  by (simp add: has_def)

lemma current_handler_fresh_reports_cached:
  assumes "fetchCurrentGoldPrice t_get t_set api c = (Inr v, reqs, c1)" "reqs \<noteq> []"
    and "t_has - t_set \<le> CURRENT_PRICE_TTL"
  shows "current_handler t_get t_set t_has api c = (Ok200 v True, reqs, c1)"
proof -
  from current_fresh [OF assms(1,2)]
  have e: "Map_get ''current_gold_price'' (cache c1)
             = Some \<lparr>data = v, timestamp = t_set, ttl = CURRENT_PRICE_TTL, key = ''current_gold_price''\<rparr>"
    by (simp only: set_cache_entry)
  from has_live [OF e, of t_has] assms(3) have "has t_has ''current_gold_price'' c1 = (True, c1)"
    by simp
  then show ?thesis
    by (simp add: current_handler_def assms(1))
qed

text \<open>
  C8 at a failing input. With an empty cache and a service whose GCUSD quote has data, the
  handler issues both requests and answers with \<open>cached = True\<close>, although the quote
  was fetched during the call.
\<close>

theorem current_handler_cached_flag_on_fresh_fetch:
  "current_handler 0 1 2 gold_only new_cache =
     (Ok200 quote_record True, [QuoteReq ''GLD'', QuoteReq ''GCUSD''],
      \<lparr>cache = [(''current_gold_price'',
                 \<lparr>data = quote_record, timestamp = 1, ttl = 300000, key = ''current_gold_price''\<rparr>)]\<rparr>)"
  by (simp add: current_handler_def current_gold_only has_def)

end
